theory Spec2Isabelle
  imports Complex_Main
begin

section \<open>Thermal transport kernels of teal\<close>

text \<open>
  The kernels compute with the framework's scalar type \<open>Real\<close>. It is embedded as the HOL
  type \<open>real\<close>: every statement below is about the arithmetic of the real numbers, and
  says nothing about rounding, infinities or NaN of the machine representation.
  Variable identifiers (\<open>unsigned int\<close>) are only ever compared for equality and are
  embedded as \<open>nat\<close>.
\<close>

subsection \<open>Three-component vectors (RealVectorValue)\<close>

type_synonym RealVectorValue = "real \<times> real \<times> real"

text \<open>\<open>a * b\<close> on two vectors: the dot product.\<close>

fun dot :: "RealVectorValue \<Rightarrow> RealVectorValue \<Rightarrow> real" where
  "dot (a0, a1, a2) (b0, b1, b2) = a0 * b0 + a1 * b1 + a2 * b2"

text \<open>\<open>s * v\<close> with a scalar on the left.\<close>

fun scale :: "real \<Rightarrow> RealVectorValue \<Rightarrow> RealVectorValue" where
  "scale s (a0, a1, a2) = (s * a0, s * a1, s * a2)"

text \<open>\<open>v(k)\<close>: the component of index \<open>k\<close>; the kernels use the literals 0, 1 and 2 only.\<close>

fun comp :: "RealVectorValue \<Rightarrow> nat \<Rightarrow> real" where
  "comp (a0, a1, a2) k = (if k = 0 then a0 else if k = 1 then a1 else a2)"

subsection \<open>What every kernel inherits\<close>

text \<open>
  The members of the framework's \<open>Kernel\<close> and \<open>IntegratedBC\<close> that the pointwise
  methods read, already taken at the current test index \<open>_i\<close>, trial index \<open>_j\<close> and
  quadrature point \<open>_qp\<close>: \<open>test\<close> is \<open>_test[_i][_qp]\<close>, \<open>phi\<close> is \<open>_phi[_j][_qp]\<close>,
  \<open>u\<close> is \<open>_u[_qp]\<close>, and likewise for the gradients.
\<close>

record Kernel_qp =
  test :: real
  phi :: real
  u :: real
  grad_test :: RealVectorValue
  grad_u :: RealVectorValue

subsection \<open>HeatConduction\<close>

record HeatConduction_qp = Kernel_qp +
  conductivity :: real
  volfrac :: real

text \<open>The identifiers of the coupled variables, fixed by the constructor.\<close>

record HeatConduction_vars =
  conductivity_var :: nat
  volfrac_var :: nat

definition HeatConduction_computeQpOffDiagJacobian ::
  "HeatConduction_vars \<Rightarrow> HeatConduction_qp \<Rightarrow> nat \<Rightarrow> real" where
  "HeatConduction_computeQpOffDiagJacobian c q jvar =
     (if jvar = conductivity_var c
      then dot (scale (volfrac q * phi q) (grad_test q)) (grad_u q)
      else if jvar = volfrac_var c
      then dot (scale (phi q * conductivity q) (grad_test q)) (grad_u q)
      else 0.0)"

subsection \<open>HeatConvection\<close>

record HeatConvection_qp = Kernel_qp +
  hs :: real
  other_temp :: real
  volfrac :: real
  specarea :: real

record HeatConvection_vars =
  hs_var :: nat
  other_temp_var :: nat
  volfrac_var :: nat
  specarea_var :: nat

definition HeatConvection_computeQpResidual :: "HeatConvection_qp \<Rightarrow> real" where
  "HeatConvection_computeQpResidual q =
     test q * hs q * specarea q * volfrac q * (u q - other_temp q)"

definition HeatConvection_computeQpOffDiagJacobian ::
  "HeatConvection_vars \<Rightarrow> HeatConvection_qp \<Rightarrow> nat \<Rightarrow> real" where
  "HeatConvection_computeQpOffDiagJacobian c q jvar =
     (if jvar = other_temp_var c
      then - test q * hs q * specarea q * volfrac q * phi q
      else if jvar = hs_var c
      then test q * phi q * specarea q * volfrac q * (u q - other_temp q)
      else if jvar = volfrac_var c
      then test q * hs q * specarea q * phi q * (u q - other_temp q)
      else if jvar = specarea_var c
      then test q * hs q * phi q * volfrac q * (u q - other_temp q)
      else 0.0)"

subsection \<open>ThermalFluidFluxBC\<close>

record ThermalFluidFluxBC_qp = Kernel_qp +
  normals :: RealVectorValue
  density :: real
  heat_cap :: real
  volfrac :: real
  ux :: real
  uy :: real
  uz :: real
  outside_temp :: real

record ThermalFluidFluxBC_vars =
  density_var :: nat
  heat_cap_var :: nat
  volfrac_var :: nat
  ux_var :: nat
  uy_var :: nat
  uz_var :: nat
  outside_temp_var :: nat

text \<open>\<open>_vec\<close> after the three assignments that open every method of the kernel.\<close>

definition ThermalFluidFluxBC_vec :: "ThermalFluidFluxBC_qp \<Rightarrow> RealVectorValue" where
  "ThermalFluidFluxBC_vec q = (ux q, uy q, uz q)"

text \<open>The two branch expressions of \<open>computeQpResidual\<close>: its "Output" and "Input" blocks.\<close>

definition ThermalFluidFluxBC_residual_output :: "ThermalFluidFluxBC_qp \<Rightarrow> real" where
  "ThermalFluidFluxBC_residual_output q =
     test q * dot (ThermalFluidFluxBC_vec q) (normals q) * u q * density q * heat_cap q *
       volfrac q"

definition ThermalFluidFluxBC_residual_input :: "ThermalFluidFluxBC_qp \<Rightarrow> real" where
  "ThermalFluidFluxBC_residual_input q =
     test q * dot (ThermalFluidFluxBC_vec q) (normals q) * outside_temp q * density q *
       heat_cap q * volfrac q"

definition ThermalFluidFluxBC_computeQpResidual :: "ThermalFluidFluxBC_qp \<Rightarrow> real" where
  "ThermalFluidFluxBC_computeQpResidual q =
     (if dot (ThermalFluidFluxBC_vec q) (normals q) > 0.0
      then 0 + ThermalFluidFluxBC_residual_output q
      else 0 + ThermalFluidFluxBC_residual_input q)"

definition ThermalFluidFluxBC_computeQpJacobian :: "ThermalFluidFluxBC_qp \<Rightarrow> real" where
  "ThermalFluidFluxBC_computeQpJacobian q =
     (if dot (ThermalFluidFluxBC_vec q) (normals q) > 0.0
      then 0 + test q * dot (ThermalFluidFluxBC_vec q) (normals q) * phi q * density q *
             heat_cap q * volfrac q
      else 0 + 0.0)"

definition ThermalFluidFluxBC_computeQpOffDiagJacobian ::
  "ThermalFluidFluxBC_vars \<Rightarrow> ThermalFluidFluxBC_qp \<Rightarrow> nat \<Rightarrow> real" where
  "ThermalFluidFluxBC_computeQpOffDiagJacobian c q jvar =
     (if jvar = ux_var c then
        (if dot (ThermalFluidFluxBC_vec q) (normals q) > 0.0
         then 0 + test q * u q * (phi q * comp (normals q) 0) * density q * heat_cap q *
                volfrac q
         else 0 + test q * outside_temp q * (phi q * comp (normals q) 0) * density q *
                heat_cap q * volfrac q)
      else if jvar = uy_var c then
        (if dot (ThermalFluidFluxBC_vec q) (normals q) > 0.0
         then 0 + test q * u q * (phi q * comp (normals q) 1) * density q * heat_cap q *
                volfrac q
         else 0 + test q * outside_temp q * (phi q * comp (normals q) 1) * density q *
                heat_cap q * volfrac q)
      else if jvar = uz_var c then
        (if dot (ThermalFluidFluxBC_vec q) (normals q) > 0.0
         then 0 + test q * u q * (phi q * comp (normals q) 2) * density q * heat_cap q *
                volfrac q
         else 0 + test q * outside_temp q * (phi q * comp (normals q) 2) * density q *
                heat_cap q * volfrac q)
      else 0.0)"

subsection \<open>HeatAdvectionConservative: the pointwise off-diagonal Jacobian\<close>

record HeatAdvectionConservative_qp = Kernel_qp +
  density :: real
  heat_cap :: real
  volfrac :: real
  ux :: real
  uy :: real
  uz :: real

record HeatAdvectionConservative_vars =
  density_var :: nat
  heat_cap_var :: nat
  volfrac_var :: nat
  ux_var :: nat
  uy_var :: nat
  uz_var :: nat

definition HeatAdvectionConservative_vec :: "HeatAdvectionConservative_qp \<Rightarrow> RealVectorValue" where
  "HeatAdvectionConservative_vec q = (ux q, uy q, uz q)"

definition HeatAdvectionConservative_computeQpOffDiagJacobian ::
  "HeatAdvectionConservative_vars \<Rightarrow> HeatAdvectionConservative_qp \<Rightarrow> nat \<Rightarrow> real" where
  "HeatAdvectionConservative_computeQpOffDiagJacobian c q jvar =
     (if jvar = ux_var c
      then - u q * (phi q * comp (grad_test q) 0) * density q * heat_cap q * volfrac q
      else if jvar = uy_var c
      then - u q * (phi q * comp (grad_test q) 1) * density q * heat_cap q * volfrac q
      else if jvar = uz_var c
      then - u q * (phi q * comp (grad_test q) 2) * density q * heat_cap q * volfrac q
      else if jvar = density_var c
      then - u q * dot (grad_test q) (HeatAdvectionConservative_vec q) * phi q * heat_cap q *
             volfrac q
      else if jvar = heat_cap_var c
      then - u q * dot (grad_test q) (HeatAdvectionConservative_vec q) * density q * phi q *
             volfrac q
      else if jvar = volfrac_var c
      then - u q * dot (grad_test q) (HeatAdvectionConservative_vec q) * density q *
             heat_cap q * phi q
      else 0.0)"

subsection \<open>Concrete quadrature points\<close>

text \<open>A boundary point where the flow enters (\<open>v \<cdot> n = -1\<close>) and one where it leaves.\<close>

definition bc_inflow_point :: ThermalFluidFluxBC_qp where
  "bc_inflow_point = \<lparr>test = 2, phi = 3, u = 350, grad_test = (0, 0, 0), grad_u = (0, 0, 0),
     normals = (1, 0, 0), ThermalFluidFluxBC_qp.density = 5, ThermalFluidFluxBC_qp.heat_cap = 7,
     ThermalFluidFluxBC_qp.volfrac = 1 / 2, ThermalFluidFluxBC_qp.ux = - 1,
     ThermalFluidFluxBC_qp.uy = 4, ThermalFluidFluxBC_qp.uz = 0, outside_temp = 300\<rparr>"

definition bc_outflow_point :: ThermalFluidFluxBC_qp where
  "bc_outflow_point = bc_inflow_point\<lparr>ThermalFluidFluxBC_qp.ux := 1\<rparr>"

text \<open>A boundary point where the velocity is tangential (\<open>v \<cdot> n = 0\<close>).\<close>

definition bc_tangent_point :: ThermalFluidFluxBC_qp where
  "bc_tangent_point = bc_inflow_point\<lparr>ThermalFluidFluxBC_qp.ux := 0\<rparr>"

text \<open>
  Two boundary points whose normal has three non-zero components: the flow leaves at the
  first (\<open>v \<cdot> n = 14\<close>) and enters at the second (\<open>v \<cdot> n = -14\<close>).
\<close>

definition bc_oblique_outflow_point :: ThermalFluidFluxBC_qp where
  "bc_oblique_outflow_point = bc_inflow_point\<lparr>normals := (2, 3, 5),
     ThermalFluidFluxBC_qp.ux := 1, ThermalFluidFluxBC_qp.uy := 4\<rparr>"

definition bc_oblique_inflow_point :: ThermalFluidFluxBC_qp where
  "bc_oblique_inflow_point = bc_inflow_point\<lparr>normals := (2, 3, 5),
     ThermalFluidFluxBC_qp.ux := - 1, ThermalFluidFluxBC_qp.uy := - 4\<rparr>"

text \<open>
  A configuration of the boundary kernel, with a variable of its own for each coupled
  quantity.
\<close>

definition bc_distinct_vars :: ThermalFluidFluxBC_vars where
  "bc_distinct_vars = \<lparr>ThermalFluidFluxBC_vars.density_var = 1,
     ThermalFluidFluxBC_vars.heat_cap_var = 2, ThermalFluidFluxBC_vars.volfrac_var = 3,
     ThermalFluidFluxBC_vars.ux_var = 4, ThermalFluidFluxBC_vars.uy_var = 5,
     ThermalFluidFluxBC_vars.uz_var = 6, outside_temp_var = 7\<rparr>"

definition convection_vars :: HeatConvection_vars where
  "convection_vars = \<lparr>hs_var = 1, other_temp_var = 2, HeatConvection_vars.volfrac_var = 3,
     specarea_var = 4\<rparr>"

definition conduction_vars :: HeatConduction_vars where
  "conduction_vars = \<lparr>conductivity_var = 1, HeatConduction_vars.volfrac_var = 2\<rparr>"

definition advection_vars :: HeatAdvectionConservative_vars where
  "advection_vars = \<lparr>density_var = 1, heat_cap_var = 2, volfrac_var = 3,
     ux_var = 4, uy_var = 5, uz_var = 6\<rparr>"

definition advection_point :: HeatAdvectionConservative_qp where
  "advection_point = \<lparr>test = 2, phi = 3, u = 350, grad_test = (1, 2, 3), grad_u = (0, 0, 0),
     density = 5, heat_cap = 7, volfrac = 1 / 2, ux = 1, uy = 4, uz = 0\<rparr>"

definition convection_point :: HeatConvection_qp where
  "convection_point = \<lparr>test = 2, phi = 3, u = 400, grad_test = (0, 0, 0), grad_u = (0, 0, 0),
     hs = 5, other_temp = 300, HeatConvection_qp.volfrac = 1 / 2, specarea = 3\<rparr>"

definition conduction_point :: HeatConduction_qp where
  "conduction_point = \<lparr>test = 2, phi = 3, u = 400, grad_test = (1, 0, 0), grad_u = (1, 0, 0),
     conductivity = 2, HeatConduction_qp.volfrac = 1\<rparr>"

section \<open>HeatAdvectionConservative::fullUpwind\<close>

subsection \<open>Failures and checked containers\<close>

text \<open>
  The containers of the framework (\<open>DenseVector\<close>, \<open>DenseMatrix\<close>, \<open>std::vector\<close>,
  \<open>VariableValue\<close>) do not define an access outside their bounds, and the quotient of
  two real numbers does not exist when the divisor is zero. Both are failures of the
  embedding: a computation returns \<open>Inl\<close> of the failure, or \<open>Inr\<close> of its value.
\<close>

datatype error = OutOfRange | DivideByZero

type_synonym 'a result = "error + 'a"

definition and_then :: "'a result \<Rightarrow> ('a \<Rightarrow> 'b result) \<Rightarrow> 'b result" where
  "and_then m f = (case m of Inl err \<Rightarrow> Inl err | Inr x \<Rightarrow> f x)"

text \<open>\<open>xs[i]\<close> and \<open>xs(i)\<close> as a read, and \<open>xs[i] = v\<close> as a write.\<close>

definition get_at :: "'a list \<Rightarrow> nat \<Rightarrow> 'a result" where
  "get_at xs i = (if i < length xs then Inr (xs ! i) else Inl OutOfRange)"

definition put_at :: "'a list \<Rightarrow> nat \<Rightarrow> 'a \<Rightarrow> 'a list result" where
  "put_at xs i v = (if i < length xs then Inr (xs[i := v]) else Inl OutOfRange)"

text \<open>A \<open>DenseMatrix\<close> is the list of its rows; \<open>M(i, j)\<close> as a read and as a write.\<close>

definition mat_get :: "real list list \<Rightarrow> nat \<Rightarrow> nat \<Rightarrow> real result" where
  "mat_get M i j = and_then (get_at M i) (\<lambda>row. get_at row j)"

definition mat_put :: "real list list \<Rightarrow> nat \<Rightarrow> nat \<Rightarrow> real \<Rightarrow> real list list result" where
  "mat_put M i j v =
     and_then (get_at M i) (\<lambda>row. and_then (put_at row j v) (\<lambda>row'. put_at M i row'))"

text \<open>\<open>a / b\<close>.\<close>

definition divide :: "real \<Rightarrow> real \<Rightarrow> real result" where
  "divide a b = (if b = 0 then Inl DivideByZero else Inr (a / b))"

text \<open>\<open>v += w\<close> on two dense vectors, and \<open>A += B\<close> on two dense matrices, of equal sizes.\<close>

definition vec_add :: "real list \<Rightarrow> real list \<Rightarrow> real list result" where
  "vec_add v w = (if length v = length w then Inr (map2 (+) v w) else Inl OutOfRange)"

definition mat_add :: "real list list \<Rightarrow> real list list \<Rightarrow> real list list result" where
  "mat_add A B =
     (if length A = length B \<and> list_all2 (\<lambda>r r'. length r = length r') A B
      then Inr (map2 (map2 (+)) A B) else Inl OutOfRange)"

text \<open>\<open>std::vector::resize(n)\<close>: the first elements stay, new ones take the default value.\<close>

definition resize :: "'a list \<Rightarrow> nat \<Rightarrow> 'a \<Rightarrow> 'a list" where
  "resize xs n d = take n xs @ replicate (n - length xs) d"

text \<open>
  \<open>for (i = 0; i < n; ++i) body\<close> is \<open>for_each [0..<n] body\<close>; a range-based \<open>for\<close> over a
  container of \<open>n\<close> elements runs over its indices in the same way. The first failure
  ends the loop.
\<close>

fun for_each :: "nat list \<Rightarrow> (nat \<Rightarrow> 's \<Rightarrow> 's result) \<Rightarrow> 's \<Rightarrow> 's result" where
  "for_each [] body s = Inr s"
| "for_each (i # rest) body s = and_then (body i s) (for_each rest body)"

text \<open>
  \<open>for (auto & x : xs) x = op(x)\<close>, where \<open>op\<close> can fail: the loops over the tagged blocks
  and over the save-in variables.
\<close>

definition update_each :: "('a \<Rightarrow> 'a result) \<Rightarrow> 'a list \<Rightarrow> 'a list result" where
  "update_each op xs =
     for_each [0..<length xs]
       (\<lambda>t ys. and_then (get_at ys t) (\<lambda>x. and_then (op x) (\<lambda>x'. put_at ys t x')))
       xs"

subsection \<open>The element and the kernel's state\<close>

text \<open>
  What the framework hands to the kernel for one element, read and never written by
  \<open>fullUpwind\<close>: the sizes \<open>_test.size()\<close>, \<open>_phi.size()\<close> and \<open>_qrule->n_points()\<close>, the
  arrays indexed by quadrature point, \<open>_grad_test[_i][_qp]\<close>, the nodal values
  \<open>_u_nodal\<close> of the unknown, and the two save-in flags.
\<close>

record element =
  n_test :: nat
  n_phi :: nat
  n_points :: nat
  JxW :: "real list"
  coord :: "real list"
  grad_test :: "RealVectorValue list list"
  ux :: "real list"
  uy :: "real list"
  uz :: "real list"
  density :: "real list"
  heat_cap :: "real list"
  volfrac :: "real list"
  u_nodal :: "real list"
  has_save_in :: bool
  has_diag_save_in :: bool

text \<open>
  What \<open>fullUpwind\<close> writes: the local residual \<open>_local_re\<close> and local Jacobian
  \<open>_local_ke\<close>, the kernel's members \<open>_upwind_node\<close> and \<open>_dtotal_mass_out\<close>, the tagged
  residual and matrix blocks of the assembly (\<open>_re_blocks\<close>, \<open>_ke_blocks\<close>), and, for each
  save-in variable, the entries of its solution vector at the element's degrees of freedom.
\<close>

record kernel_state =
  local_re :: "real list"
  local_ke :: "real list list"
  upwind_node :: "bool list"
  dtotal_mass_out :: "real list"
  re_blocks :: "real list list"
  ke_blocks :: "real list list list"
  save_in :: "real list list"
  diag_save_in :: "real list list"

datatype JacRes = CALCULATE_RESIDUAL | CALCULATE_JACOBIAN

subsection \<open>The framework's side\<close>

text \<open>
  Modelled from the spec: the four functions of the framework's tagging interface that
  \<open>fullUpwind\<close> calls are not part of the repository. The spec (section 3) has the local
  residual vector hold one scalar per test function and the local Jacobian one scalar per
  pair of a test and a trial function, both zero-initialised per element visit and then
  handed to the assembler, which accumulates them additively.
\<close>

definition prepareVectorTag :: "element \<Rightarrow> kernel_state \<Rightarrow> kernel_state" where
  "prepareVectorTag e s = s\<lparr>local_re := replicate (n_test e) 0\<rparr>"

definition prepareMatrixTag :: "element \<Rightarrow> kernel_state \<Rightarrow> kernel_state" where
  "prepareMatrixTag e s = s\<lparr>local_ke := replicate (n_test e) (replicate (n_phi e) 0)\<rparr>"

definition accumulateTaggedLocalResidual :: "kernel_state \<Rightarrow> kernel_state result" where
  "accumulateTaggedLocalResidual s =
     and_then (update_each (\<lambda>re. vec_add re (local_re s)) (re_blocks s)) (\<lambda>blocks.
       Inr (s\<lparr>re_blocks := blocks\<rparr>))"

definition accumulateTaggedLocalMatrix :: "kernel_state \<Rightarrow> kernel_state result" where
  "accumulateTaggedLocalMatrix s =
     and_then (update_each (\<lambda>ke. mat_add ke (local_ke s)) (ke_blocks s)) (\<lambda>blocks.
       Inr (s\<lparr>ke_blocks := blocks\<rparr>))"

subsection \<open>The kernel\<close>

text \<open>\<open>negSpeedQp()\<close> at the test index \<open>_i\<close> and the quadrature point \<open>_qp\<close>.\<close>

definition negSpeedQp :: "element \<Rightarrow> nat \<Rightarrow> nat \<Rightarrow> real result" where
  "negSpeedQp e i qp =
     and_then (get_at (ux e) qp) (\<lambda>vec0.
     and_then (get_at (uy e) qp) (\<lambda>vec1.
     and_then (get_at (uz e) qp) (\<lambda>vec2.
     and_then (get_at (grad_test e) i) (\<lambda>grad_test_i.
     and_then (get_at grad_test_i qp) (\<lambda>grad_test_i_qp.
     and_then (get_at (density e) qp) (\<lambda>density_qp.
     and_then (get_at (heat_cap e) qp) (\<lambda>heat_cap_qp.
     and_then (get_at (volfrac e) qp) (\<lambda>volfrac_qp.
       Inr (- dot grad_test_i_qp (vec0, vec1, vec2) * density_qp * heat_cap_qp *
              volfrac_qp)))))))))"

text \<open>
  The first loop: \<open>_local_re(_i) += _JxW[_qp] * _coord[_qp] * negSpeedQp()\<close> over the
  quadrature points, then \<open>_upwind_node[_i] = (_local_re(_i) >= 0.0)\<close>.
\<close>

definition outflux_qp :: "element \<Rightarrow> nat \<Rightarrow> nat \<Rightarrow> kernel_state \<Rightarrow> kernel_state result" where
  "outflux_qp e i qp s =
     and_then (get_at (JxW e) qp) (\<lambda>JxW_qp.
     and_then (get_at (coord e) qp) (\<lambda>coord_qp.
     and_then (negSpeedQp e i qp) (\<lambda>speed.
     and_then (get_at (local_re s) i) (\<lambda>re_i.
     and_then (put_at (local_re s) i (re_i + JxW_qp * coord_qp * speed)) (\<lambda>re'.
       Inr (s\<lparr>local_re := re'\<rparr>))))))"

definition outflux_node :: "element \<Rightarrow> nat \<Rightarrow> kernel_state \<Rightarrow> kernel_state result" where
  "outflux_node e i s =
     and_then (for_each [0..<n_points e] (outflux_qp e i) s) (\<lambda>s'.
     and_then (get_at (local_re s') i) (\<lambda>re_i.
     and_then (put_at (upwind_node s') i (re_i \<ge> 0.0)) (\<lambda>upwind'.
       Inr (s'\<lparr>upwind_node := upwind'\<rparr>))))"

text \<open>
  The second loop, over the nodes \<open>n\<close>, carries the locals \<open>total_mass_out\<close> and \<open>total_in\<close>
  beside the state.
\<close>

definition mass_out_jacobian :: "element \<Rightarrow> nat \<Rightarrow> kernel_state \<Rightarrow> kernel_state result" where
  "mass_out_jacobian e n s =
     and_then
       (if n_test e = n_phi e
        then and_then (get_at (local_re s) n) (\<lambda>re_n.
             and_then (mat_get (local_ke s) n n) (\<lambda>ke_nn.
             and_then (mat_put (local_ke s) n n (ke_nn + re_n)) (\<lambda>ke'.
               Inr (s\<lparr>local_ke := ke'\<rparr>))))
        else Inr s) (\<lambda>s'.
     and_then (mat_get (local_ke s') n n) (\<lambda>ke_nn.
     and_then (get_at (dtotal_mass_out s') n) (\<lambda>d_n.
     and_then (put_at (dtotal_mass_out s') n (d_n + ke_nn)) (\<lambda>d'.
       Inr (s'\<lparr>dtotal_mass_out := d'\<rparr>)))))"

definition mass_out_node ::
  "JacRes \<Rightarrow> element \<Rightarrow> nat \<Rightarrow> kernel_state \<times> real \<times> real \<Rightarrow>
     (kernel_state \<times> real \<times> real) result" where
  "mass_out_node res_or_jac e n = (\<lambda>(s, total_mass_out, total_in).
     and_then (get_at (upwind_node s) n) (\<lambda>upwind_n.
       if upwind_n
       then and_then (if res_or_jac = CALCULATE_JACOBIAN then mass_out_jacobian e n s
                      else Inr s) (\<lambda>s'.
            and_then (get_at (local_re s') n) (\<lambda>re_n.
            and_then (get_at (u_nodal e) n) (\<lambda>u_n.
            and_then (put_at (local_re s') n (re_n * u_n)) (\<lambda>re'.
              Inr (s'\<lparr>local_re := re'\<rparr>, total_mass_out + re_n * u_n, total_in)))))
       else and_then (get_at (local_re s) n) (\<lambda>re_n.
              Inr (s, total_mass_out, total_in - re_n))))"

text \<open>
  The third loop: on a downwind node, the Jacobian row gains
  \<open>_local_re(n) * _dtotal_mass_out[_j] / total_in\<close> in every column \<open>_j\<close>, and the
  residual is multiplied by \<open>total_mass_out / total_in\<close>.
\<close>

definition redistribute_jacobian ::
  "real \<Rightarrow> nat \<Rightarrow> nat \<Rightarrow> kernel_state \<Rightarrow> kernel_state result" where
  "redistribute_jacobian total_in n j s =
     and_then (get_at (local_re s) n) (\<lambda>re_n.
     and_then (get_at (dtotal_mass_out s) j) (\<lambda>d_j.
     and_then (divide (re_n * d_j) total_in) (\<lambda>share.
     and_then (mat_get (local_ke s) n j) (\<lambda>ke_nj.
     and_then (mat_put (local_ke s) n j (ke_nj + share)) (\<lambda>ke'.
       Inr (s\<lparr>local_ke := ke'\<rparr>))))))"

definition redistribute_node ::
  "JacRes \<Rightarrow> element \<Rightarrow> real \<Rightarrow> real \<Rightarrow> nat \<Rightarrow> kernel_state \<Rightarrow> kernel_state result" where
  "redistribute_node res_or_jac e total_mass_out total_in n s =
     and_then (get_at (upwind_node s) n) (\<lambda>upwind_n.
       if \<not> upwind_n
       then and_then (if res_or_jac = CALCULATE_JACOBIAN
                      then for_each [0..<n_phi e] (redistribute_jacobian total_in n) s
                      else Inr s) (\<lambda>s'.
            and_then (divide total_mass_out total_in) (\<lambda>ratio.
            and_then (get_at (local_re s') n) (\<lambda>re_n.
            and_then (put_at (local_re s') n (re_n * ratio)) (\<lambda>re'.
              Inr (s'\<lparr>local_re := re'\<rparr>)))))
       else Inr s)"

text \<open>
  The diagonal-save-in block copies the diagonal of \<open>_local_ke\<close>, over its \<open>m()\<close> rows, into
  a fresh vector.
\<close>

definition diagonal :: "real list list \<Rightarrow> real list result" where
  "diagonal M =
     for_each [0..<length M]
       (\<lambda>i diag. and_then (mat_get M i i) (\<lambda>ke_ii. put_at diag i ke_ii))
       (replicate (length M) 0)"

definition fullUpwind :: "JacRes \<Rightarrow> element \<Rightarrow> kernel_state \<Rightarrow> kernel_state result" where
  "fullUpwind res_or_jac e s0 =
     (let num_nodes = n_test e;
          s1 = prepareVectorTag e s0;
          s2 = (if res_or_jac = CALCULATE_JACOBIAN then prepareMatrixTag e s1 else s1);
          s3 = s2\<lparr>upwind_node := resize (upwind_node s2) num_nodes False\<rparr>
      in
      and_then (for_each [0..<num_nodes] (outflux_node e) s3) (\<lambda>s4.
      let s5 = (if res_or_jac = CALCULATE_JACOBIAN
                then s4\<lparr>dtotal_mass_out := replicate num_nodes 0.0\<rparr> else s4)
      in
      and_then (for_each [0..<num_nodes] (mass_out_node res_or_jac e) (s5, 0.0, 0.0))
        (\<lambda>(s6, total_mass_out, total_in).
      and_then (for_each [0..<num_nodes]
                  (redistribute_node res_or_jac e total_mass_out total_in) s6) (\<lambda>s7.
      and_then
        (if res_or_jac = CALCULATE_RESIDUAL
         then and_then (accumulateTaggedLocalResidual s7) (\<lambda>s8.
                if has_save_in e
                then and_then (update_each (\<lambda>sol. vec_add sol (local_re s8)) (save_in s8))
                       (\<lambda>saved.
                       Inr (s8\<lparr>save_in := saved\<rparr>))
                else Inr s8)
         else Inr s7) (\<lambda>s9.
      if res_or_jac = CALCULATE_JACOBIAN
      then and_then (accumulateTaggedLocalMatrix s9) (\<lambda>s10.
             if has_diag_save_in e
             then and_then (diagonal (local_ke s10)) (\<lambda>diag.
                  and_then (update_each (\<lambda>sol. vec_add sol diag) (diag_save_in s10)) (\<lambda>saved.
                    Inr (s10\<lparr>diag_save_in := saved\<rparr>)))
             else Inr s10)
      else Inr s9)))))"

subsection \<open>Double-precision arithmetic\<close>

text \<open>
  \<open>Real\<close> is the C++ type \<open>double\<close>. The definitions above compute over the real numbers,
  where \<open>+\<close>, \<open>*\<close> and \<open>/\<close> are exact; a double holds the result of each operation rounded
  to 53 significant bits, to the nearest such number and to the one with an even significand
  on a tie. \<open>binary64 x\<close> is that rounding of the real number \<open>x\<close>: \<open>binade\<close> is the exponent
  \<open>k\<close> with \<open>2 ^ k \<le> x < 2 ^ (k + 1)\<close>, \<open>ulp x\<close> the spacing \<open>2 ^ (k - 52)\<close> of the doubles
  around \<open>x\<close>. The
  exponent is not bounded, so \<open>binary64\<close> is the rounding of the hardware only where no
  operation overflows or underflows.
\<close>

fun bit_length :: "nat \<Rightarrow> nat" where
  "bit_length n = (if n = 0 then 0 else Suc (bit_length (n div 2)))"

declare bit_length.simps [simp del]

definition binade :: "real \<Rightarrow> int" where
  "binade x =
     (if x \<ge> 1 then int (bit_length (nat \<lfloor>x\<rfloor>)) - 1
      else - int (bit_length (nat (\<lceil>1 / x\<rceil> - 1))))"

definition round_half_even :: "real \<Rightarrow> int" where
  "round_half_even x =
     (let n = \<lfloor>x\<rfloor>; d = x - of_int n
      in if d < 1 / 2 then n else if d > 1 / 2 then n + 1 else if even n then n else n + 1)"

definition ulp :: "real \<Rightarrow> real" where
  "ulp x = 2 powi (binade \<bar>x\<bar> - 52)"

definition binary64 :: "real \<Rightarrow> real" where
  "binary64 x =
     (if x = 0 then 0 else sgn x * of_int (round_half_even (\<bar>x\<bar> / ulp x)) * ulp x)"

subsection \<open>The residual pass with a rounding after every operation\<close>









subsection \<open>The quantities the spec names\<close>

text \<open>
  The framework sizes its arrays by the counts it reports: one entry per quadrature point,
  and one row of \<open>_grad_test\<close> per test function.
\<close>

definition wf_element :: "element \<Rightarrow> bool" where
  "wf_element e \<longleftrightarrow>
     length (JxW e) = n_points e \<and> length (coord e) = n_points e \<and>
     length (ux e) = n_points e \<and> length (uy e) = n_points e \<and> length (uz e) = n_points e \<and>
     length (density e) = n_points e \<and> length (heat_cap e) = n_points e \<and>
     length (volfrac e) = n_points e \<and>
     length (grad_test e) = n_test e \<and>
     list_all (\<lambda>row. length row = n_points e) (grad_test e)"

text \<open>
  The assembly's residual blocks, and the save-in targets when there are any, have one
  entry per test function.
\<close>

definition wf_residual_targets :: "element \<Rightarrow> kernel_state \<Rightarrow> bool" where
  "wf_residual_targets e s \<longleftrightarrow>
     list_all (\<lambda>re. length re = n_test e) (re_blocks s) \<and>
     (has_save_in e \<longrightarrow> list_all (\<lambda>sol. length sol = n_test e) (save_in s))"

text \<open>
  The assembly's matrix blocks have one row per test function and one column per trial
  function; the diagonal save-in targets have one entry per test function.
\<close>

definition wf_jacobian_targets :: "element \<Rightarrow> kernel_state \<Rightarrow> bool" where
  "wf_jacobian_targets e s \<longleftrightarrow>
     list_all (\<lambda>ke. length ke = n_test e \<and> list_all (\<lambda>row. length row = n_phi e) ke)
       (ke_blocks s) \<and>
     (has_diag_save_in e \<longrightarrow> list_all (\<lambda>sol. length sol = n_test e) (diag_save_in s))"

text \<open>
  Step 1 of the spec: the pointwise integrand
  \<open>(\<minus>\<nabla>test[i][qp] \<cdot> v[qp]) \<cdot> \<rho>[qp] \<cdot> cp[qp] \<cdot> volfrac[qp]\<close> and the raw nodal outflux, its sum
  over the quadrature points weighted by \<open>quadratureWeight[qp] \<cdot> coordFactor[qp]\<close>.
\<close>

definition negSpeed :: "element \<Rightarrow> nat \<Rightarrow> nat \<Rightarrow> real" where
  "negSpeed e i qp =
     - dot (grad_test e ! i ! qp) (ux e ! qp, uy e ! qp, uz e ! qp) * density e ! qp *
       heat_cap e ! qp * volfrac e ! qp"

definition rawFlux :: "element \<Rightarrow> nat \<Rightarrow> real" where
  "rawFlux e i = (\<Sum>qp\<leftarrow>[0..<n_points e]. JxW e ! qp * coord e ! qp * negSpeed e i qp)"

text \<open>
  Steps 3 and 4 of the spec: the outgoing mass summed over the outflow nodes, and the
  sign-flipped raw outflux summed over the inflow nodes.
\<close>

definition totalMassOut :: "element \<Rightarrow> real" where
  "totalMassOut e =
     (\<Sum>n\<leftarrow>[0..<n_test e]. if rawFlux e n \<ge> 0 then rawFlux e n * u_nodal e ! n else 0)"

definition totalIn :: "element \<Rightarrow> real" where
  "totalIn e = (\<Sum>n\<leftarrow>[0..<n_test e]. if rawFlux e n \<ge> 0 then 0 else - rawFlux e n)"

text \<open>
  Step 2 of the spec: the classification of the nodes, \<open>True\<close> for an outflow (upwind) node.
\<close>

definition upwindClassification :: "element \<Rightarrow> bool list" where
  "upwindClassification e = map (\<lambda>n. rawFlux e n \<ge> 0) [0..<n_test e]"

text \<open>
  Steps 3, 5 and 6 of the spec: an outflow node carries its outgoing mass
  \<open>rawFlux[i] \<cdot> u_nodal[i]\<close>, an inflow node the redistributed value
  \<open>rawFlux[i] \<cdot> (totalMassOut / totalIn)\<close>.
\<close>

definition upwindResidual :: "element \<Rightarrow> real list" where
  "upwindResidual e =
     map (\<lambda>n. if rawFlux e n \<ge> 0 then rawFlux e n * u_nodal e ! n
              else rawFlux e n * (totalMassOut e / totalIn e)) [0..<n_test e]"

text \<open>
  Step 3 of the spec, for the Jacobian: the sensitivity \<open>dMassOut[i]\<close> of the outgoing mass
  to the unknown at node \<open>i\<close>, which is \<open>rawFlux[i]\<close> on an outflow node.
\<close>

definition dMassOut :: "element \<Rightarrow> real list" where
  "dMassOut e = map (\<lambda>n. if rawFlux e n \<ge> 0 then rawFlux e n else 0) [0..<n_test e]"

text \<open>
  Steps 3 and 5 of the spec, for the Jacobian: the row of an outflow node holds
  \<open>rawFlux[i]\<close> on the diagonal, the row of an inflow node holds
  \<open>rawFlux[i] \<cdot> dMassOut[j] / totalIn\<close> in every column \<open>j\<close>.
\<close>

definition upwindJacobian :: "element \<Rightarrow> real list list" where
  "upwindJacobian e =
     map (\<lambda>i. map (\<lambda>j. if rawFlux e i \<ge> 0 then (if j = i then rawFlux e i else 0)
                        else rawFlux e i * dMassOut e ! j / totalIn e) [0..<n_phi e])
       [0..<n_test e]"

subsection \<open>Concrete elements\<close>

text \<open>
  An element with two nodes and one quadrature point, in a flow along \<open>x\<close>: node 0 is an
  outflow node (raw outflux \<open>3/2\<close>), node 1 an inflow node (raw outflux \<open>-3/2\<close>).
\<close>

definition two_nodes :: element where
  "two_nodes = \<lparr>n_test = 2, n_phi = 2, n_points = 1, JxW = [1 / 2], coord = [1],
     grad_test = [[(- 1, 0, 0)], [(1, 0, 0)]], ux = [1], uy = [0], uz = [0],
     density = [2], heat_cap = [3], volfrac = [1 / 2], u_nodal = [400, 300],
     has_save_in = False, has_diag_save_in = False\<rparr>"

text \<open>The same element with every node an outflow node (raw outfluxes \<open>3/2\<close> and \<open>3\<close>).\<close>

definition all_outflow :: element where
  "all_outflow = two_nodes\<lparr>grad_test := [[(- 1, 0, 0)], [(- 2, 0, 0)]]\<rparr>"

text \<open>The same element at rest: both raw outfluxes are zero.\<close>

definition at_rest :: element where
  "at_rest = two_nodes\<lparr>ux := [0]\<rparr>"

text \<open>The element with two test functions and a single trial function.\<close>

definition one_trial :: element where
  "one_trial = two_nodes\<lparr>n_phi := 1\<rparr>"

text \<open>
  A state before the kernel runs: empty scratch, one tagged residual block and one tagged
  matrix block that hold earlier contributions, no save-in variables.
\<close>

definition assembled :: kernel_state where
  "assembled = \<lparr>local_re = [], local_ke = [], upwind_node = [], dtotal_mass_out = [],
     re_blocks = [[10, 20]], ke_blocks = [[[1, 2], [3, 4]]], save_in = [], diag_save_in = []\<rparr>"

text \<open>The same state with no tagged matrix block.\<close>

definition untagged :: kernel_state where
  "untagged = assembled\<lparr>ke_blocks := []\<rparr>"



section \<open>Checked containers and loops\<close>

lemma and_then_Inr [simp]: "and_then (Inr x) f = f x"
  by (simp add: and_then_def)

lemma and_then_Inl [simp]: "and_then (Inl err) f = Inl err"
  by (simp add: and_then_def)

lemma and_then_eq_Inr:
  "and_then m f = Inr y \<longleftrightarrow> (\<exists>x. m = Inr x \<and> f x = Inr y)"
  by (cases m) simp_all

lemma get_at_in_range [simp]: "i < length xs \<Longrightarrow> get_at xs i = Inr (xs ! i)"
  by (simp add: get_at_def)

lemma put_at_in_range [simp]: "i < length xs \<Longrightarrow> put_at xs i v = Inr (xs[i := v])"
  by (simp add: put_at_def)

lemma get_at_eq_Inr: "get_at xs i = Inr x \<longleftrightarrow> i < length xs \<and> x = xs ! i"
  by (auto simp: get_at_def)

lemma put_at_eq_Inr: "put_at xs i v = Inr ys \<longleftrightarrow> i < length xs \<and> ys = xs[i := v]"
  by (auto simp: put_at_def)

lemma mat_get_in_range [simp]:
  "i < length M \<Longrightarrow> j < length (M ! i) \<Longrightarrow> mat_get M i j = Inr (M ! i ! j)"
  by (simp add: mat_get_def)

lemma mat_put_in_range [simp]:
  "i < length M \<Longrightarrow> j < length (M ! i) \<Longrightarrow> mat_put M i j v = Inr (M[i := (M ! i)[j := v]])"
  by (simp add: mat_put_def)

lemma divide_nonzero [simp]: "b \<noteq> 0 \<Longrightarrow> divide a b = Inr (a / b)"
  by (simp add: divide_def)

lemma for_each_append:
  "for_each (xs @ ys) body s = and_then (for_each xs body s) (for_each ys body)"
proof (induction xs arbitrary: s)
  case Nil
  show ?case by simp
next
  case (Cons i xs)
  show ?case
  proof (cases "body i s")
    case (Inl err)
    then show ?thesis by simp
  next
    case (Inr t)
    then show ?thesis by (simp add: Cons.IH)
  qed
qed

lemma for_each_Suc:
  "for_each [0..<Suc k] body s = and_then (for_each [0..<k] body s) (body k)"
proof -
  have "for_each [k] body t = body k t" for t
    by (cases "body k t") simp_all
  then have "for_each [k] body = body k"
    by (rule ext)
  then show ?thesis
    by (simp add: for_each_append)
qed

text \<open>What every step that returns preserves holds of the state a loop returns.\<close>

lemma for_each_preserves:
  assumes "for_each xs body s = Inr t" and "P s"
    and "\<And>i a b. i \<in> set xs \<Longrightarrow> P a \<Longrightarrow> body i a = Inr b \<Longrightarrow> P b"
  shows "P t"
  using assms
proof (induction xs arbitrary: s)
  case Nil
  then show ?case by simp
next
  case (Cons i xs)
  from Cons.prems(1) obtain a where a: "body i s = Inr a" "for_each xs body a = Inr t"
    by (auto simp: and_then_eq_Inr)
  have "P a"
    using Cons.prems(2) a(1) by (rule Cons.prems(3) [of i, simplified])
  with a(2) show ?case
  proof (rule Cons.IH)
    fix j c d
    assume "j \<in> set xs" "P c" "body j c = Inr d"
    then show "P d"
      using Cons.prems(3) [of j c d] by simp
  qed
qed

section \<open>The loops of \<open>fullUpwind\<close>, residual pass\<close>

lemma negSpeedQp_wf:
  "wf_element e \<Longrightarrow> i < n_test e \<Longrightarrow> qp < n_points e \<Longrightarrow>
     negSpeedQp e i qp = Inr (negSpeed e i qp)"
  by (simp add: negSpeedQp_def negSpeed_def wf_element_def list_all_length)

lemma outflux_qp_wf:
  assumes "wf_element e" "i < n_test e" "qp < n_points e" "i < length (local_re s)"
  shows "outflux_qp e i qp s =
     Inr (s\<lparr>local_re := (local_re s)[i := local_re s ! i + JxW e ! qp * coord e ! qp * negSpeed e i qp]\<rparr>)"
  using assms by (simp add: outflux_qp_def negSpeedQp_wf) (simp add: wf_element_def)

lemma outflux_qp_loop:
  assumes "wf_element e" "i < n_test e" "i < length (local_re s)" "k \<le> n_points e"
  shows "for_each [0..<k] (outflux_qp e i) s =
     Inr (s\<lparr>local_re := (local_re s)
            [i := local_re s ! i + (\<Sum>qp\<leftarrow>[0..<k]. JxW e ! qp * coord e ! qp * negSpeed e i qp)]\<rparr>)"
  using assms(4)
proof (induction k)
  case 0
  show ?case by simp
next
  case (Suc k)
  then have "k < n_points e" and "k \<le> n_points e"
    by simp_all
  then show ?case
    using assms(1-3) by (simp only: for_each_Suc) (simp add: Suc.IH outflux_qp_wf add.assoc)
qed

lemma outflux_node_wf:
  assumes "wf_element e" "i < n_test e" "i < length (local_re s)" "i < length (upwind_node s)"
  shows "outflux_node e i s =
     Inr (s\<lparr>local_re := (local_re s)[i := local_re s ! i + rawFlux e i],
            upwind_node := (upwind_node s)[i := (0 \<le> local_re s ! i + rawFlux e i)]\<rparr>)"
  using assms by (simp add: outflux_node_def outflux_qp_loop rawFlux_def)

lemma outflux_node_loop:
  assumes "wf_element e" "length (local_re s) = n_test e" "length (upwind_node s) = n_test e"
    "k \<le> n_test e"
  shows "for_each [0..<k] (outflux_node e) s =
     Inr (s\<lparr>local_re := map (\<lambda>i. if i < k then local_re s ! i + rawFlux e i else local_re s ! i)
                          [0..<n_test e],
            upwind_node := map (\<lambda>i. if i < k then 0 \<le> local_re s ! i + rawFlux e i
                                     else upwind_node s ! i) [0..<n_test e]\<rparr>)"
  using assms(4)
proof (induction k)
  case 0
  have "map ((!) (local_re s)) [0..<n_test e] = local_re s"
    "map ((!) (upwind_node s)) [0..<n_test e] = upwind_node s"
    using assms(2,3) map_nth [of "local_re s"] map_nth [of "upwind_node s"] by simp_all
  then show ?case by simp
next
  case (Suc k)
  then have k: "k < n_test e" "k \<le> n_test e"
    by simp_all
  have re: "(map (\<lambda>i. if i < k then local_re s ! i + rawFlux e i else local_re s ! i)
                [0..<n_test e])[k := local_re s ! k + rawFlux e k] =
            map (\<lambda>i. if i < Suc k then local_re s ! i + rawFlux e i else local_re s ! i)
                [0..<n_test e]"
    using k(1) by (auto intro!: nth_equalityI simp: nth_list_update less_Suc_eq)
  have up: "(map (\<lambda>i. if i < k then 0 \<le> local_re s ! i + rawFlux e i else upwind_node s ! i)
                [0..<n_test e])[k := (0 \<le> local_re s ! k + rawFlux e k)] =
            map (\<lambda>i. if i < Suc k then 0 \<le> local_re s ! i + rawFlux e i else upwind_node s ! i)
                [0..<n_test e]"
    using k(1) by (auto intro!: nth_equalityI simp: nth_list_update less_Suc_eq)
  show ?case
    using assms(1) k re up
    by (simp only: for_each_Suc) (simp add: Suc.IH outflux_node_wf)
qed


lemma map_upt_update:
  "k < N \<Longrightarrow> (map f [0..<N])[k := v] = map (\<lambda>i. if i = k then v else f i) [0..<N]"
  by (auto intro!: nth_equalityI simp: nth_list_update)

lemma mass_out_node_residual_loop:
  assumes "length (local_re s) = N" "length (upwind_node s) = N" "N \<le> length (u_nodal e)"
    "k \<le> N"
  shows "for_each [0..<k] (mass_out_node CALCULATE_RESIDUAL e) (s, M, T) =
     Inr (s\<lparr>local_re := map (\<lambda>n. if n < k \<and> upwind_node s ! n
                                  then local_re s ! n * u_nodal e ! n else local_re s ! n) [0..<N]\<rparr>,
          M + (\<Sum>n\<leftarrow>[0..<k]. if upwind_node s ! n then local_re s ! n * u_nodal e ! n else 0),
          T + (\<Sum>n\<leftarrow>[0..<k]. if upwind_node s ! n then 0 else - local_re s ! n))"
  using assms(4)
proof (induction k)
  case 0
  have "map ((!) (local_re s)) [0..<N] = local_re s"
    using assms(1) map_nth [of "local_re s"] by simp
  then show ?case by simp
next
  case (Suc k)
  then have k: "k < N" "k \<le> N" "k < length (u_nodal e)"
    using assms(3) by simp_all
  show ?case
    using k assms(1,2)
    by (simp only: for_each_Suc)
      (auto simp: Suc.IH mass_out_node_def map_upt_update less_Suc_eq add.assoc)
qed


lemma redistribute_node_residual_loop:
  assumes "length (local_re s) = N" "length (upwind_node s) = N" "k \<le> N"
    "T \<noteq> 0 \<or> (\<forall>n<N. upwind_node s ! n)"
  shows "for_each [0..<k] (redistribute_node CALCULATE_RESIDUAL e M T) s =
     Inr (s\<lparr>local_re := map (\<lambda>n. if n < k \<and> \<not> upwind_node s ! n
                                  then local_re s ! n * (M / T) else local_re s ! n) [0..<N]\<rparr>)"
  using assms(3)
proof (induction k)
  case 0
  have "map ((!) (local_re s)) [0..<N] = local_re s"
    using assms(1) map_nth [of "local_re s"] by simp
  then show ?case by simp
next
  case (Suc k)
  then have k: "k < N" "k \<le> N"
    by simp_all
  have "\<not> upwind_node s ! k \<Longrightarrow> T \<noteq> 0"
    using assms(4) k(1) by blast
  then show ?case
    using k assms(1,2)
    by (simp only: for_each_Suc)
      (auto simp: Suc.IH redistribute_node_def map_upt_update less_Suc_eq)
qed

lemma update_each_loop:
  assumes "\<And>x. x \<in> set xs \<Longrightarrow> op x = Inr (f x)" "k \<le> length xs"
  shows "for_each [0..<k]
           (\<lambda>t ys. and_then (get_at ys t) (\<lambda>x. and_then (op x) (\<lambda>x'. put_at ys t x'))) xs =
         Inr (map f (take k xs) @ drop k xs)"
  using assms(2)
proof (induction k)
  case 0
  show ?case by simp
next
  case (Suc k)
  then have k: "k < length xs" "k \<le> length xs"
    by simp_all
  then have "op (xs ! k) = Inr (f (xs ! k))"
    by (simp add: assms(1))
  moreover have "(map f (take k xs) @ drop k xs)[k := f (xs ! k)] =
      map f (take (Suc k) xs) @ drop (Suc k) xs"
    using k(1)
    by (simp add: take_Suc_conv_app_nth list_update_append upd_conv_take_nth_drop
        Cons_nth_drop_Suc [symmetric])
  ultimately show ?case
    using k
    by (simp only: for_each_Suc) (simp add: Suc.IH nth_append)
qed

lemma update_each_total:
  assumes "\<And>x. x \<in> set xs \<Longrightarrow> op x = Inr (f x)"
  shows "update_each op xs = Inr (map f xs)"
  using update_each_loop [of xs op f "length xs"] assms
  by (simp add: update_each_def)


lemma totalIn_eq_0_iff: "totalIn e = 0 \<longleftrightarrow> (\<forall>n<n_test e. rawFlux e n \<ge> 0)"
proof -
  have "totalIn e = 0 \<longleftrightarrow>
      (\<forall>x\<in>set (map (\<lambda>n. if rawFlux e n \<ge> 0 then 0 else - rawFlux e n) [0..<n_test e]). x = 0)"
    unfolding totalIn_def by (rule sum_list_nonneg_eq_0_iff) auto
  also have "\<dots> \<longleftrightarrow> (\<forall>n<n_test e. (if rawFlux e n \<ge> 0 then 0 else - rawFlux e n) = 0)"
    unfolding all_set_conv_all_nth by simp
  also have "\<dots> \<longleftrightarrow> (\<forall>n<n_test e. rawFlux e n \<ge> 0)"
    by (intro all_cong) auto
  finally show ?thesis .
qed


lemma map_upt_cong: "(\<And>n. n < N \<Longrightarrow> f n = g n) \<Longrightarrow> map f [0..<N] = map g [0..<N]"
  by simp

lemma sum_upt_cong:
  "(\<And>n. n < N \<Longrightarrow> f n = g n) \<Longrightarrow> (\<Sum>n\<leftarrow>[0..<N]. f n) = (\<Sum>n\<leftarrow>[0..<N]. g n :: real)"
  by (rule arg_cong [where f = sum_list]) simp

text \<open>
  The three loops of the residual pass, from the state that the preparation leaves: the first
  stores the raw nodal outflux and the classification, the second returns the locals
  \<open>total_mass_out\<close> and \<open>total_in\<close> as \<open>totalMassOut\<close> and \<open>totalIn\<close>, the third leaves the
  residual of the spec.
\<close>

lemma residual_pass_loops:
  fixes e :: element and s :: kernel_state
  defines "s3 \<equiv> s\<lparr>local_re := replicate (n_test e) 0,
                     upwind_node := resize (upwind_node s) (n_test e) False\<rparr>"
    and "s4 \<equiv> s\<lparr>local_re := map (rawFlux e) [0..<n_test e],
                   upwind_node := upwindClassification e\<rparr>"
    and "s6 \<equiv> s\<lparr>local_re := map (\<lambda>n. if rawFlux e n \<ge> 0 then rawFlux e n * u_nodal e ! n
                                         else rawFlux e n) [0..<n_test e],
                   upwind_node := upwindClassification e\<rparr>"
    and "s7 \<equiv> s\<lparr>local_re := upwindResidual e, upwind_node := upwindClassification e\<rparr>"
  assumes "wf_element e" "n_test e \<le> length (u_nodal e)"
  shows "for_each [0..<n_test e] (outflux_node e) s3 = Inr s4"
    and "for_each [0..<n_test e] (mass_out_node CALCULATE_RESIDUAL e) (s4, 0, 0) =
           Inr (s6, totalMassOut e, totalIn e)"
    and "for_each [0..<n_test e]
           (redistribute_node CALCULATE_RESIDUAL e (totalMassOut e) (totalIn e)) s6 = Inr s7"
proof -
  define N where "N = n_test e"
  note assms = assms(5,6)
  have len3: "length (local_re s3) = n_test e" "length (upwind_node s3) = n_test e"
    by (simp_all add: s3_def N_def resize_def)
  have "s3\<lparr>local_re := map (\<lambda>i. if i < N then local_re s3 ! i + rawFlux e i else local_re s3 ! i)
                          [0..<N],
          upwind_node := map (\<lambda>i. if i < N then 0 \<le> local_re s3 ! i + rawFlux e i
                                   else upwind_node s3 ! i) [0..<N]\<rparr> = s4"
    by (simp add: s3_def s4_def upwindClassification_def N_def)
  then show loop1: "for_each [0..<n_test e] (outflux_node e) s3 = Inr s4"
    using outflux_node_loop [OF assms(1) len3, of N] by (simp add: N_def)
  have len4: "length (local_re s4) = N" "length (upwind_node s4) = N"
    by (simp_all add: s4_def N_def upwindClassification_def)
  have at4: "local_re s4 ! n = rawFlux e n" "upwind_node s4 ! n = (rawFlux e n \<ge> 0)"
    if "n < N" for n
    using that by (simp_all add: s4_def N_def upwindClassification_def)
  have "s4\<lparr>local_re := map (\<lambda>n. if n < N \<and> upwind_node s4 ! n
                                then local_re s4 ! n * u_nodal e ! n else local_re s4 ! n)
                         [0..<N]\<rparr> = s6"
    by (simp add: s4_def s6_def upwindClassification_def N_def cong: map_cong)
  moreover have "(\<Sum>n\<leftarrow>[0..<N]. if upwind_node s4 ! n then local_re s4 ! n * u_nodal e ! n else 0) =
      totalMassOut e"
    unfolding totalMassOut_def N_def [symmetric] by (rule sum_upt_cong) (simp add: at4)
  moreover have "(\<Sum>n\<leftarrow>[0..<N]. if upwind_node s4 ! n then 0 else - local_re s4 ! n) = totalIn e"
    unfolding totalIn_def N_def [symmetric] by (rule sum_upt_cong) (simp add: at4)
  ultimately show loop2: "for_each [0..<n_test e] (mass_out_node CALCULATE_RESIDUAL e) (s4, 0, 0) =
      Inr (s6, totalMassOut e, totalIn e)"
    using mass_out_node_residual_loop [OF len4, of e N 0 0] assms(2) by (simp add: N_def)
  have len6: "length (local_re s6) = N" "length (upwind_node s6) = N"
    by (simp_all add: s6_def N_def upwindClassification_def)
  have at6: "local_re s6 ! n = (if rawFlux e n \<ge> 0 then rawFlux e n * u_nodal e ! n
                                else rawFlux e n)"
    "upwind_node s6 ! n = (rawFlux e n \<ge> 0)" if "n < N" for n
    using that by (simp_all add: s6_def N_def upwindClassification_def)
  have divisor: "totalIn e \<noteq> 0 \<or> (\<forall>n<N. upwind_node s6 ! n)"
    using totalIn_eq_0_iff [of e] by (auto simp: at6 N_def)
  have "s6\<lparr>local_re := map (\<lambda>n. if n < N \<and> \<not> upwind_node s6 ! n
                                then local_re s6 ! n * (totalMassOut e / totalIn e)
                                else local_re s6 ! n) [0..<N]\<rparr> = s7"
    by (simp add: s6_def s7_def upwindResidual_def upwindClassification_def N_def cong: map_cong)
  then show "for_each [0..<n_test e]
      (redistribute_node CALCULATE_RESIDUAL e (totalMassOut e) (totalIn e)) s6 = Inr s7"
    using redistribute_node_residual_loop [OF len6 _ divisor, of N e "totalMassOut e"]
    by (simp add: N_def)
qed

text \<open>The residual pass returns, with the residual of the spec added to every target.\<close>

lemma fullUpwind_residual:
  assumes "wf_element e" "n_test e \<le> length (u_nodal e)" "wf_residual_targets e s"
  shows "fullUpwind CALCULATE_RESIDUAL e s =
     Inr (s\<lparr>local_re := upwindResidual e,
            upwind_node := upwindClassification e,
            re_blocks := map (\<lambda>re. map2 (+) re (upwindResidual e)) (re_blocks s),
            save_in := (if has_save_in e
                        then map (\<lambda>sol. map2 (+) sol (upwindResidual e)) (save_in s)
                        else save_in s)\<rparr>)"
proof -
  have len_res: "length (upwindResidual e) = n_test e"
    by (simp add: upwindResidual_def)
  have blocks: "update_each (\<lambda>re. vec_add re (upwindResidual e)) (re_blocks s) =
      Inr (map (\<lambda>re. map2 (+) re (upwindResidual e)) (re_blocks s))"
    using assms(3)
    by (intro update_each_total) (simp add: wf_residual_targets_def list_all_iff vec_add_def len_res)
  have saved: "has_save_in e \<Longrightarrow>
      update_each (\<lambda>sol. vec_add sol (upwindResidual e)) (save_in s) =
      Inr (map (\<lambda>sol. map2 (+) sol (upwindResidual e)) (save_in s))"
    using assms(3)
    by (intro update_each_total) (simp add: wf_residual_targets_def list_all_iff vec_add_def len_res)
  show ?thesis
    using residual_pass_loops [OF assms(1,2), of s] blocks saved
    by (simp add: fullUpwind_def prepareVectorTag_def accumulateTaggedLocalResidual_def)
qed

section \<open>The loops of \<open>fullUpwind\<close>, Jacobian pass\<close>

lemma mass_out_jacobian_equal_counts:
  assumes "n_test e = n_phi e" "n < length (local_re s)" "n < length (local_ke s)"
    "n < length (local_ke s ! n)" "n < length (dtotal_mass_out s)"
  shows "mass_out_jacobian e n s =
     Inr (s\<lparr>local_ke := (local_ke s)[n := (local_ke s ! n)[n := local_ke s ! n ! n + local_re s ! n]],
            dtotal_mass_out := (dtotal_mass_out s)
              [n := dtotal_mass_out s ! n + (local_ke s ! n ! n + local_re s ! n)]\<rparr>)"
  using assms by (simp add: mass_out_jacobian_def)

lemma mass_out_node_jacobian_loop:
  assumes "n_test e = n_phi e"
    "length (local_re s) = N" "length (upwind_node s) = N" "N \<le> length (u_nodal e)"
    "length (local_ke s) = N" "\<forall>i<N. length (local_ke s ! i) = N"
    "length (dtotal_mass_out s) = N" "k \<le> N"
  shows "for_each [0..<k] (mass_out_node CALCULATE_JACOBIAN e) (s, M, T) =
     Inr (s\<lparr>local_re := map (\<lambda>n. if n < k \<and> upwind_node s ! n
                                  then local_re s ! n * u_nodal e ! n else local_re s ! n) [0..<N],
            local_ke := map (\<lambda>n. if n < k \<and> upwind_node s ! n
                                  then (local_ke s ! n)[n := local_ke s ! n ! n + local_re s ! n]
                                  else local_ke s ! n) [0..<N],
            dtotal_mass_out := map (\<lambda>n. if n < k \<and> upwind_node s ! n
                                  then dtotal_mass_out s ! n + (local_ke s ! n ! n + local_re s ! n)
                                  else dtotal_mass_out s ! n) [0..<N]\<rparr>,
          M + (\<Sum>n\<leftarrow>[0..<k]. if upwind_node s ! n then local_re s ! n * u_nodal e ! n else 0),
          T + (\<Sum>n\<leftarrow>[0..<k]. if upwind_node s ! n then 0 else - local_re s ! n))"
  using assms(8)
proof (induction k)
  case 0
  have "map ((!) (local_re s)) [0..<N] = local_re s"
    "map ((!) (local_ke s)) [0..<N] = local_ke s"
    "map ((!) (dtotal_mass_out s)) [0..<N] = dtotal_mass_out s"
    using assms(2,5,7) map_nth [of "local_re s"] map_nth [of "local_ke s"]
      map_nth [of "dtotal_mass_out s"] by simp_all
  then show ?case by simp
next
  case (Suc k)
  then have k: "k < N" "k \<le> N" "k < length (u_nodal e)" "length (local_ke s ! k) = N"
    using assms(4,6) by simp_all
  show ?case
    using k assms(1,2,3,5,7)
    by (simp only: for_each_Suc)
      (auto simp: Suc.IH mass_out_node_def mass_out_jacobian_equal_counts map_upt_update
        less_Suc_eq add.assoc)
qed


lemma map_upt_update_if:
  "k < N \<Longrightarrow> v = f k \<Longrightarrow> (map (\<lambda>i. if i < k then f i else g i) [0..<N])[k := v] =
     map (\<lambda>i. if i < Suc k then f i else g i) [0..<N]"
  by (auto intro!: nth_equalityI simp: nth_list_update less_Suc_eq)

lemma redistribute_jacobian_loop:
  assumes "n < length (local_re s)" "n < length (local_ke s)" "length (local_ke s ! n) = P"
    "P \<le> length (dtotal_mass_out s)" "T \<noteq> 0" "k \<le> P"
  shows "for_each [0..<k] (redistribute_jacobian T n) s =
     Inr (s\<lparr>local_ke := (local_ke s)
            [n := map (\<lambda>j. if j < k
                            then local_ke s ! n ! j + local_re s ! n * dtotal_mass_out s ! j / T
                            else local_ke s ! n ! j) [0..<P]]\<rparr>)"
  using assms(6)
proof (induction k)
  case 0
  have "map ((!) (local_ke s ! n)) [0..<P] = local_ke s ! n"
    using assms(3) map_nth [of "local_ke s ! n"] by simp
  then show ?case by simp
next
  case (Suc k)
  then have k: "k < P" "k \<le> P" "k < length (dtotal_mass_out s)"
    using assms(4) by simp_all
  show ?case
    using k assms(1,2,3,5)
    by (simp only: for_each_Suc)
      (simp add: Suc.IH redistribute_jacobian_def map_upt_update_if)
qed

lemma redistribute_node_jacobian_loop:
  assumes "length (local_re s) = N" "length (upwind_node s) = N" "length (local_ke s) = N"
    "\<forall>i<N. length (local_ke s ! i) = n_phi e" "n_phi e \<le> length (dtotal_mass_out s)"
    "k \<le> N" "T \<noteq> 0 \<or> (\<forall>n<N. upwind_node s ! n)"
  shows "for_each [0..<k] (redistribute_node CALCULATE_JACOBIAN e M T) s =
     Inr (s\<lparr>local_re := map (\<lambda>n. if n < k \<and> \<not> upwind_node s ! n
                                  then local_re s ! n * (M / T) else local_re s ! n) [0..<N],
            local_ke := map (\<lambda>n. if n < k \<and> \<not> upwind_node s ! n
                                  then map (\<lambda>j. local_ke s ! n ! j +
                                                 local_re s ! n * dtotal_mass_out s ! j / T)
                                         [0..<n_phi e]
                                  else local_ke s ! n) [0..<N]\<rparr>)"
  using assms(6)
proof (induction k)
  case 0
  have "map ((!) (local_re s)) [0..<N] = local_re s" "map ((!) (local_ke s)) [0..<N] = local_ke s"
    using assms(1,3) map_nth [of "local_re s"] map_nth [of "local_ke s"] by simp_all
  then show ?case by simp
next
  case (Suc k)
  then have k: "k < N" "k \<le> N" "length (local_ke s ! k) = n_phi e"
    using assms(4) by simp_all
  have T: "\<not> upwind_node s ! k \<Longrightarrow> T \<noteq> 0"
    using assms(7) k(1) by blast
  show ?case
  proof (cases "upwind_node s ! k")
    case True
    then show ?thesis
      using k assms(1,2,3)
      by (simp only: for_each_Suc)
        (auto simp: Suc.IH redistribute_node_def less_Suc_eq intro!: map_upt_cong)
  next
    case False
    define t where "t = s\<lparr>local_re := map (\<lambda>n. if n < k \<and> \<not> upwind_node s ! n
                                  then local_re s ! n * (M / T) else local_re s ! n) [0..<N],
            local_ke := map (\<lambda>n. if n < k \<and> \<not> upwind_node s ! n
                                  then map (\<lambda>j. local_ke s ! n ! j +
                                                 local_re s ! n * dtotal_mass_out s ! j / T)
                                         [0..<n_phi e]
                                  else local_ke s ! n) [0..<N]\<rparr>"
    have t: "k < length (local_re t)" "k < length (local_ke t)"
      "length (local_ke t ! k) = n_phi e" "n_phi e \<le> length (dtotal_mass_out t)"
      "local_re t ! k = local_re s ! k" "local_ke t ! k = local_ke s ! k"
      "dtotal_mass_out t = dtotal_mass_out s" "upwind_node t = upwind_node s"
      using k assms(1,3,5) by (simp_all add: t_def)
    have row: "map (\<lambda>j. if j < n_phi e
                         then local_ke t ! k ! j + local_re t ! k * dtotal_mass_out t ! j / T
                         else local_ke t ! k ! j) [0..<n_phi e] =
        map (\<lambda>j. local_ke s ! k ! j + local_re s ! k * dtotal_mass_out s ! j / T) [0..<n_phi e]"
      by (rule map_upt_cong) (simp add: t(5,6,7))
    have inner: "for_each [0..<n_phi e] (redistribute_jacobian T k) t =
        Inr (t\<lparr>local_ke := (local_ke t)
              [k := map (\<lambda>j. local_ke s ! k ! j + local_re s ! k * dtotal_mass_out s ! j / T)
                      [0..<n_phi e]]\<rparr>)"
      using redistribute_jacobian_loop [OF t(1,2,3,4) T [OF False], of "n_phi e"]
      unfolding row by simp
    have "for_each [0..<k] (redistribute_node CALCULATE_JACOBIAN e M T) s = Inr t"
      using Suc.IH k(2) by (simp add: t_def)
    then show ?thesis
      using False T k assms(1,2,3) inner
      by (simp only: for_each_Suc)
        (auto simp: redistribute_node_def t(8) t_def map_upt_update less_Suc_eq
          intro!: map_upt_cong)
  qed
qed

lemma diagonal_loop:
  assumes "\<forall>i<length M. i < length (M ! i)" "k \<le> length M"
  shows "for_each [0..<k] (\<lambda>i diag. and_then (mat_get M i i) (\<lambda>ke_ii. put_at diag i ke_ii))
           (replicate (length M) 0) =
         Inr (map (\<lambda>i. if i < k then M ! i ! i else 0) [0..<length M])"
  using assms(2)
proof (induction k)
  case 0
  show ?case by (simp add: map_replicate_const)
next
  case (Suc k)
  then have "k < length M" "k \<le> length M" "k < length (M ! k)"
    using assms(1) by simp_all
  then show ?case
    by (simp only: for_each_Suc)
      (auto simp: Suc.IH map_upt_update less_Suc_eq intro!: map_upt_cong)
qed

lemma diagonal_total:
  assumes "\<forall>i<length M. i < length (M ! i)"
  shows "diagonal M = Inr (map (\<lambda>i. M ! i ! i) [0..<length M])"
  using diagonal_loop [OF assms, of "length M"] by (simp add: diagonal_def)

lemma mat_add_same_shape:
  assumes "length A = length B" "\<forall>i<length A. length (A ! i) = length (B ! i)"
  shows "mat_add A B = Inr (map2 (map2 (+)) A B)"
  using assms by (simp add: mat_add_def list_all2_conv_all_nth)

lemma fullUpwind_jacobian:
  assumes "wf_element e" "n_test e = n_phi e" "n_test e \<le> length (u_nodal e)"
    "wf_jacobian_targets e s"
  shows "fullUpwind CALCULATE_JACOBIAN e s =
     Inr (s\<lparr>local_re := upwindResidual e,
            local_ke := upwindJacobian e,
            upwind_node := upwindClassification e,
            dtotal_mass_out := dMassOut e,
            ke_blocks := map (\<lambda>ke. map2 (map2 (+)) ke (upwindJacobian e)) (ke_blocks s),
            diag_save_in :=
              (if has_diag_save_in e
               then map (\<lambda>sol. map2 (+) sol (map (\<lambda>i. upwindJacobian e ! i ! i) [0..<n_test e]))
                      (diag_save_in s)
               else diag_save_in s)\<rparr>)"
proof -
  define N where "N = n_test e"
  have P: "n_phi e = N"
    using assms(2) by (simp add: N_def)
  define s3 where "s3 = s\<lparr>local_re := replicate N 0, local_ke := replicate N (replicate N 0),
    upwind_node := resize (upwind_node s) N False\<rparr>"
  define s4 where "s4 = s\<lparr>local_re := map (rawFlux e) [0..<N],
    local_ke := replicate N (replicate N 0), upwind_node := upwindClassification e\<rparr>"
  define s5 where "s5 = s4\<lparr>dtotal_mass_out := replicate N 0\<rparr>"
  define ke6 where "ke6 = map (\<lambda>n. if rawFlux e n \<ge> 0 then (replicate N 0)[n := rawFlux e n]
                                    else replicate N 0) [0..<N]"
  define s6 where "s6 = s\<lparr>local_re := map (\<lambda>n. if rawFlux e n \<ge> 0 then rawFlux e n * u_nodal e ! n
                                  else rawFlux e n) [0..<N],
    local_ke := ke6, upwind_node := upwindClassification e, dtotal_mass_out := dMassOut e\<rparr>"
  define s7 where "s7 = s\<lparr>local_re := upwindResidual e, local_ke := upwindJacobian e,
    upwind_node := upwindClassification e, dtotal_mass_out := dMassOut e\<rparr>"

  have len3: "length (local_re s3) = n_test e" "length (upwind_node s3) = n_test e"
    by (simp_all add: s3_def N_def resize_def)
  have "s3\<lparr>local_re := map (\<lambda>i. if i < N then local_re s3 ! i + rawFlux e i else local_re s3 ! i)
                          [0..<N],
          upwind_node := map (\<lambda>i. if i < N then 0 \<le> local_re s3 ! i + rawFlux e i
                                   else upwind_node s3 ! i) [0..<N]\<rparr> = s4"
    by (simp add: s3_def s4_def upwindClassification_def N_def)
  then have loop1: "for_each [0..<N] (outflux_node e) s3 = Inr s4"
    using outflux_node_loop [OF assms(1) len3, of N] by (simp add: N_def)

  have len5: "length (local_re s5) = N" "length (upwind_node s5) = N" "length (local_ke s5) = N"
    "\<forall>i<N. length (local_ke s5 ! i) = N" "length (dtotal_mass_out s5) = N"
    by (simp_all add: s5_def s4_def N_def upwindClassification_def)
  have at5: "local_re s5 ! n = rawFlux e n" "upwind_node s5 ! n = (rawFlux e n \<ge> 0)"
    "local_ke s5 ! n = replicate N 0" "dtotal_mass_out s5 ! n = 0" if "n < N" for n
    using that by (simp_all add: s5_def s4_def N_def upwindClassification_def)
  have re6: "map (\<lambda>n. if n < N \<and> upwind_node s5 ! n then local_re s5 ! n * u_nodal e ! n
                       else local_re s5 ! n) [0..<N] =
      map (\<lambda>n. if rawFlux e n \<ge> 0 then rawFlux e n * u_nodal e ! n else rawFlux e n) [0..<N]"
    by (rule map_upt_cong) (simp add: at5)
  have ke6: "map (\<lambda>n. if n < N \<and> upwind_node s5 ! n
                       then (local_ke s5 ! n)[n := local_ke s5 ! n ! n + local_re s5 ! n]
                       else local_ke s5 ! n) [0..<N] = ke6"
    unfolding ke6_def by (rule map_upt_cong) (simp add: at5)
  have d6: "map (\<lambda>n. if n < N \<and> upwind_node s5 ! n
                      then dtotal_mass_out s5 ! n + (local_ke s5 ! n ! n + local_re s5 ! n)
                      else dtotal_mass_out s5 ! n) [0..<N] = dMassOut e"
    unfolding dMassOut_def N_def [symmetric] by (rule map_upt_cong) (simp add: at5)
  have M6: "(\<Sum>n\<leftarrow>[0..<N]. if upwind_node s5 ! n then local_re s5 ! n * u_nodal e ! n else 0) =
      totalMassOut e"
    unfolding totalMassOut_def N_def [symmetric] by (rule sum_upt_cong) (simp add: at5)
  have T6: "(\<Sum>n\<leftarrow>[0..<N]. if upwind_node s5 ! n then 0 else - local_re s5 ! n) = totalIn e"
    unfolding totalIn_def N_def [symmetric] by (rule sum_upt_cong) (simp add: at5)
  have "N \<le> length (u_nodal e)"
    using assms(3) by (simp add: N_def)
  from mass_out_node_jacobian_loop [OF assms(2) len5(1,2) this len5(3,4,5), of N 0 0]
  have loop2: "for_each [0..<N] (mass_out_node CALCULATE_JACOBIAN e) (s5, 0, 0) =
      Inr (s6, totalMassOut e, totalIn e)"
    unfolding re6 ke6 d6 M6 T6 by (simp add: s5_def s4_def s6_def)

  have len6: "length (local_re s6) = N" "length (upwind_node s6) = N" "length (local_ke s6) = N"
    "\<forall>i<N. length (local_ke s6 ! i) = n_phi e" "n_phi e \<le> length (dtotal_mass_out s6)"
    by (simp_all add: s6_def ke6_def N_def upwindClassification_def dMassOut_def P)
  have at6: "local_re s6 ! n = (if rawFlux e n \<ge> 0 then rawFlux e n * u_nodal e ! n
                                else rawFlux e n)"
    "upwind_node s6 ! n = (rawFlux e n \<ge> 0)"
    "local_ke s6 ! n = (if rawFlux e n \<ge> 0 then (replicate N 0)[n := rawFlux e n]
                        else replicate N 0)" if "n < N" for n
    using that by (simp_all add: s6_def ke6_def N_def upwindClassification_def)
  have divisor: "totalIn e \<noteq> 0 \<or> (\<forall>n<N. upwind_node s6 ! n)"
    using totalIn_eq_0_iff [of e] by (auto simp: at6 N_def)
  have re7: "map (\<lambda>n. if n < N \<and> \<not> upwind_node s6 ! n
                       then local_re s6 ! n * (totalMassOut e / totalIn e)
                       else local_re s6 ! n) [0..<N] = upwindResidual e"
    unfolding upwindResidual_def N_def [symmetric] by (rule map_upt_cong) (simp add: at6)
  have ke7: "map (\<lambda>n. if n < N \<and> \<not> upwind_node s6 ! n
                       then map (\<lambda>j. local_ke s6 ! n ! j +
                                      local_re s6 ! n * dtotal_mass_out s6 ! j / totalIn e)
                              [0..<n_phi e]
                       else local_ke s6 ! n) [0..<N] = upwindJacobian e"
    unfolding upwindJacobian_def N_def [symmetric] P
  proof (rule map_upt_cong)
    fix n
    assume n: "n < N"
    show "(if n < N \<and> \<not> upwind_node s6 ! n
           then map (\<lambda>j. local_ke s6 ! n ! j +
                          local_re s6 ! n * dtotal_mass_out s6 ! j / totalIn e) [0..<N]
           else local_ke s6 ! n) =
          map (\<lambda>j. if rawFlux e n \<ge> 0 then (if j = n then rawFlux e n else 0)
                    else rawFlux e n * dMassOut e ! j / totalIn e) [0..<N]"
    proof (cases "rawFlux e n \<ge> 0")
      case True
      then show ?thesis
        using n by (auto simp: at6 intro!: nth_equalityI simp: nth_list_update)
    next
      case False
      have "dtotal_mass_out s6 = dMassOut e"
        by (simp add: s6_def)
      with False show ?thesis
        using n by (auto simp: at6 intro!: map_upt_cong)
    qed
  qed
  from redistribute_node_jacobian_loop [OF len6 _ divisor, of N "totalMassOut e"]
  have loop3: "for_each [0..<N]
      (redistribute_node CALCULATE_JACOBIAN e (totalMassOut e) (totalIn e)) s6 = Inr s7"
    unfolding re7 ke7 by (simp add: s6_def s7_def)

  have shape: "length (upwindJacobian e) = N" "\<forall>i<N. length (upwindJacobian e ! i) = N"
    by (simp_all add: upwindJacobian_def N_def P [unfolded N_def])
  have blocks: "update_each (\<lambda>ke. mat_add ke (upwindJacobian e)) (ke_blocks s) =
      Inr (map (\<lambda>ke. map2 (map2 (+)) ke (upwindJacobian e)) (ke_blocks s))"
  proof (rule update_each_total)
    fix ke
    assume "ke \<in> set (ke_blocks s)"
    then have ke: "length ke = N" "\<forall>row\<in>set ke. length row = N"
      using assms(4) by (auto simp: wf_jacobian_targets_def list_all_iff N_def P [unfolded N_def])
    then have "\<forall>i<N. length (ke ! i) = N"
      by simp
    with ke(1) show "mat_add ke (upwindJacobian e) = Inr (map2 (map2 (+)) ke (upwindJacobian e))"
      using shape by (intro mat_add_same_shape) simp_all
  qed
  have diag: "diagonal (upwindJacobian e) = Inr (map (\<lambda>i. upwindJacobian e ! i ! i) [0..<N])"
    using diagonal_total [of "upwindJacobian e"] shape by simp
  have saved: "has_diag_save_in e \<Longrightarrow>
      update_each (\<lambda>sol. vec_add sol (map (\<lambda>i. upwindJacobian e ! i ! i) [0..<N])) (diag_save_in s) =
      Inr (map (\<lambda>sol. map2 (+) sol (map (\<lambda>i. upwindJacobian e ! i ! i) [0..<N])) (diag_save_in s))"
    using assms(4)
    by (intro update_each_total) (simp add: wf_jacobian_targets_def list_all_iff vec_add_def N_def)
  show ?thesis
    using loop1 loop2 loop3 blocks diag saved
    by (simp add: fullUpwind_def prepareVectorTag_def prepareMatrixTag_def
        accumulateTaggedLocalMatrix_def P N_def [symmetric] s3_def [symmetric]
        s5_def [symmetric] s7_def)
qed

section \<open>The Jacobian pass where the counts of test and trial functions differ\<close>

lemma mat_get_eq_Inr:
  "mat_get M i j = Inr x \<longleftrightarrow> i < length M \<and> j < length (M ! i) \<and> x = M ! i ! j"
  by (auto simp: mat_get_def and_then_eq_Inr get_at_eq_Inr)

lemma mat_put_eq_Inr:
  "mat_put M i j v = Inr M' \<longleftrightarrow>
     i < length M \<and> j < length (M ! i) \<and> M' = M[i := (M ! i)[j := v]]"
  by (auto simp: mat_put_def and_then_eq_Inr get_at_eq_Inr put_at_eq_Inr)

lemma divide_eq_Inr: "divide a b = Inr q \<longleftrightarrow> b \<noteq> 0 \<and> q = a / b"
  by (auto simp: divide_def)

lemma replicate_update_same: "(replicate n x)[i := x] = replicate n x"
proof (cases "i < n")
  case True
  then have "(replicate n x)[i := replicate n x ! i] = replicate n x"
    by (simp only: list_update_id)
  with True show ?thesis by simp
next
  case False
  then show ?thesis by (simp add: list_update_beyond)
qed

text \<open>The Jacobian stays zero where the counts of test and trial functions differ.\<close>

lemma outflux_qp_jacobian_side:
  "outflux_qp e i qp a = Inr b \<Longrightarrow>
     local_ke b = local_ke a \<and> dtotal_mass_out b = dtotal_mass_out a"
  by (auto simp: outflux_qp_def and_then_eq_Inr)

lemma outflux_node_jacobian_side:
  assumes "outflux_node e i a = Inr b"
  shows "local_ke b = local_ke a \<and> dtotal_mass_out b = dtotal_mass_out a"
proof -
  from assms obtain a' where a': "for_each [0..<n_points e] (outflux_qp e i) a = Inr a'"
    and b: "local_ke b = local_ke a'" "dtotal_mass_out b = dtotal_mass_out a'"
    by (auto simp: outflux_node_def and_then_eq_Inr)
  have "local_ke a' = local_ke a \<and> dtotal_mass_out a' = dtotal_mass_out a"
    by (rule for_each_preserves [OF a']) (auto dest: outflux_qp_jacobian_side)
  with b show ?thesis by simp
qed

lemma mass_out_node_zero_jacobian:
  assumes "mass_out_node CALCULATE_JACOBIAN e n (a, M, T) = Inr (b, M', T')"
    and "n_test e \<noteq> n_phi e"
    and "local_ke a = replicate N (replicate P 0)" "dtotal_mass_out a = replicate N 0"
  shows "local_ke b = replicate N (replicate P 0) \<and> dtotal_mass_out b = replicate N 0"
  using assms
  by (auto simp: mass_out_node_def mass_out_jacobian_def and_then_eq_Inr get_at_eq_Inr
      put_at_eq_Inr mat_get_eq_Inr replicate_update_same split: if_splits)

lemma redistribute_jacobian_zero_jacobian:
  assumes "redistribute_jacobian T n j a = Inr b"
    and "local_ke a = replicate N (replicate P 0)" "dtotal_mass_out a = replicate N 0"
  shows "local_ke b = replicate N (replicate P 0) \<and> dtotal_mass_out b = replicate N 0"
  using assms
  by (auto simp: redistribute_jacobian_def and_then_eq_Inr get_at_eq_Inr
      mat_put_eq_Inr mat_get_eq_Inr divide_eq_Inr replicate_update_same)

lemma redistribute_node_zero_jacobian:
  assumes "redistribute_node CALCULATE_JACOBIAN e M T n a = Inr b"
    and "local_ke a = replicate N (replicate P 0)" "dtotal_mass_out a = replicate N 0"
  shows "local_ke b = replicate N (replicate P 0) \<and> dtotal_mass_out b = replicate N 0"
proof (cases "get_at (upwind_node a) n = Inr False")
  case True
  with assms(1) obtain a' where a': "for_each [0..<n_phi e] (redistribute_jacobian T n) a = Inr a'"
    and b: "local_ke b = local_ke a'" "dtotal_mass_out b = dtotal_mass_out a'"
    by (auto simp: redistribute_node_def and_then_eq_Inr put_at_eq_Inr)
  have "local_ke a' = replicate N (replicate P 0) \<and> dtotal_mass_out a' = replicate N 0"
    by (rule for_each_preserves [OF a']) (use assms(2,3) redistribute_jacobian_zero_jacobian in blast)+
  with b show ?thesis by simp
next
  case False
  with assms show ?thesis
    by (auto simp: redistribute_node_def and_then_eq_Inr get_at_eq_Inr split: if_splits)
qed


lemma fullUpwind_jacobian_counts_differ:
  assumes "fullUpwind CALCULATE_JACOBIAN e s = Inr s'" and "n_test e \<noteq> n_phi e"
  shows "local_ke s' = replicate (n_test e) (replicate (n_phi e) 0) \<and>
         dtotal_mass_out s' = replicate (n_test e) 0"
proof -
  define Z where "Z = (\<lambda>t :: kernel_state. local_ke t = replicate (n_test e) (replicate (n_phi e) (0::real)) \<and>
    dtotal_mass_out t = replicate (n_test e) (0::real))"
  define s3 where "s3 = (prepareMatrixTag e (prepareVectorTag e s))
    \<lparr>upwind_node := resize (upwind_node (prepareMatrixTag e (prepareVectorTag e s))) (n_test e) False\<rparr>"
  from assms(1) obtain s4 s6 M T s7 s9 where
    loop1: "for_each [0..<n_test e] (outflux_node e) s3 = Inr s4" and
    loop2: "for_each [0..<n_test e] (mass_out_node CALCULATE_JACOBIAN e)
              (s4\<lparr>dtotal_mass_out := replicate (n_test e) 0\<rparr>, 0, 0) = Inr (s6, M, T)" and
    loop3: "for_each [0..<n_test e] (redistribute_node CALCULATE_JACOBIAN e M T) s6 = Inr s7" and
    acc: "accumulateTaggedLocalMatrix s7 = Inr s9" and
    fin: "local_ke s' = local_ke s9" "dtotal_mass_out s' = dtotal_mass_out s9"
    by (auto simp: fullUpwind_def Let_def and_then_eq_Inr s3_def split: if_splits)
  have "local_ke s4 = local_ke s3 \<and> dtotal_mass_out s4 = dtotal_mass_out s3"
    by (rule for_each_preserves [OF loop1]) (auto dest: outflux_node_jacobian_side)
  then have Z5: "Z (s4\<lparr>dtotal_mass_out := replicate (n_test e) 0\<rparr>)"
    by (simp add: Z_def s3_def prepareMatrixTag_def prepareVectorTag_def)
  have "case (s6, M, T) of (t, M, T) \<Rightarrow> Z t"
  proof (rule for_each_preserves [OF loop2])
    show "case (s4\<lparr>dtotal_mass_out := replicate (n_test e) 0\<rparr>, 0, 0) of (t, M, T) \<Rightarrow> Z t"
      using Z5 by simp
  next
    fix i :: nat and a b :: "kernel_state \<times> real \<times> real"
    assume "case a of (t, M, T) \<Rightarrow> Z t" "mass_out_node CALCULATE_JACOBIAN e i a = Inr b"
    then show "case b of (t, M, T) \<Rightarrow> Z t"
      using mass_out_node_zero_jacobian [OF _ assms(2), of i "fst a" "fst (snd a)" "snd (snd a)"
          "fst b" "fst (snd b)" "snd (snd b)" "n_test e" "n_phi e"]
      by (simp add: Z_def split_beta)
  qed
  then have Z6: "Z s6"
    by simp
  have Z7: "Z s7"
  proof (rule for_each_preserves [OF loop3, where P = Z])
    show "Z s6" by (rule Z6)
  next
    fix i a b
    assume "Z a" "redistribute_node CALCULATE_JACOBIAN e M T i a = Inr b"
    then show "Z b"
      using redistribute_node_zero_jacobian [of e M T i a b "n_test e" "n_phi e"]
      by (simp add: Z_def)
  qed
  from acc have "local_ke s9 = local_ke s7" "dtotal_mass_out s9 = dtotal_mass_out s7"
    by (auto simp: accumulateTaggedLocalMatrix_def and_then_eq_Inr)
  with Z7 fin show ?thesis
    by (simp add: Z_def)
qed

section \<open>What the two passes of \<open>fullUpwind\<close> write\<close>

lemma outflux_qp_writes:
  "outflux_qp e i qp a = Inr b \<Longrightarrow> \<exists>re. b = a\<lparr>local_re := re\<rparr>"
  by (auto simp: outflux_qp_def and_then_eq_Inr)

lemma outflux_node_writes:
  assumes "outflux_node e i a = Inr b"
  shows "\<exists>re up. b = a\<lparr>local_re := re, upwind_node := up\<rparr>"
proof -
  from assms obtain a' up where a': "for_each [0..<n_points e] (outflux_qp e i) a = Inr a'"
    and b: "b = a'\<lparr>upwind_node := up\<rparr>"
    by (auto simp: outflux_node_def and_then_eq_Inr)
  have "\<exists>re. a' = a\<lparr>local_re := re\<rparr>"
  proof (rule for_each_preserves [OF a', where P = "\<lambda>t. \<exists>re. t = a\<lparr>local_re := re\<rparr>"])
    show "\<exists>re. a = a\<lparr>local_re := re\<rparr>"
      by (rule exI [of _ "local_re a"]) simp
  next
    fix qp c d
    assume "\<exists>re. c = a\<lparr>local_re := re\<rparr>" "outflux_qp e i qp c = Inr d"
    then show "\<exists>re. d = a\<lparr>local_re := re\<rparr>"
      by (auto dest!: outflux_qp_writes)
  qed
  with b show ?thesis by auto
qed

lemma mass_out_node_residual_writes:
  "mass_out_node CALCULATE_RESIDUAL e n (a, M, T) = Inr (b, M', T') \<Longrightarrow>
     \<exists>re. b = a\<lparr>local_re := re\<rparr>"
  by (auto simp: mass_out_node_def and_then_eq_Inr split: if_splits
      intro: exI [of _ "local_re a"])

lemma redistribute_node_residual_writes:
  "redistribute_node CALCULATE_RESIDUAL e M T n a = Inr b \<Longrightarrow> \<exists>re. b = a\<lparr>local_re := re\<rparr>"
  by (auto simp: redistribute_node_def and_then_eq_Inr split: if_splits
      intro: exI [of _ "local_re a"])

lemma fullUpwind_residual_writes:
  assumes "fullUpwind CALCULATE_RESIDUAL e s = Inr s'"
  shows "\<exists>re up blocks saved.
           s' = s\<lparr>local_re := re, upwind_node := up, re_blocks := blocks, save_in := saved\<rparr>"
proof -
  define W where "W = (\<lambda>t :: kernel_state. \<exists>re up. t = s\<lparr>local_re := re, upwind_node := up\<rparr>)"
  define s3 where "s3 = (prepareVectorTag e s)
    \<lparr>upwind_node := resize (upwind_node (prepareVectorTag e s)) (n_test e) False\<rparr>"
  from assms obtain s4 s6 M T s7 s8 where
    loop1: "for_each [0..<n_test e] (outflux_node e) s3 = Inr s4" and
    loop2: "for_each [0..<n_test e] (mass_out_node CALCULATE_RESIDUAL e) (s4, 0, 0) =
              Inr (s6, M, T)" and
    loop3: "for_each [0..<n_test e] (redistribute_node CALCULATE_RESIDUAL e M T) s6 = Inr s7" and
    acc: "accumulateTaggedLocalResidual s7 = Inr s8" and
    save: "(if has_save_in e
            then and_then (update_each (\<lambda>sol. vec_add sol (local_re s8)) (save_in s8))
                   (\<lambda>saved. Inr (s8\<lparr>save_in := saved\<rparr>))
            else Inr s8) = Inr s'"
    by (auto simp: fullUpwind_def Let_def and_then_eq_Inr s3_def)
  have fin: "\<exists>saved. s' = s8\<lparr>save_in := saved\<rparr>"
    using save
    by (cases "has_save_in e") (auto simp: and_then_eq_Inr intro: exI [of _ "save_in s8"])
  have "W s3"
    unfolding W_def s3_def prepareVectorTag_def by auto
  have "W s4"
  proof (rule for_each_preserves [OF loop1, where P = W])
    show "W s3" by fact
  next
    fix i a b
    assume "W a" "outflux_node e i a = Inr b"
    then obtain re up re' up' where "a = s\<lparr>local_re := re, upwind_node := up\<rparr>"
      "b = a\<lparr>local_re := re', upwind_node := up'\<rparr>"
      unfolding W_def using outflux_node_writes by blast
    then have "b = s\<lparr>local_re := re', upwind_node := up'\<rparr>"
      by simp
    then show "W b"
      unfolding W_def by blast
  qed
  have "case (s6, M, T) of (t, M, T) \<Rightarrow> W t"
  proof (rule for_each_preserves [OF loop2])
    show "case (s4, 0, 0) of (t, M, T) \<Rightarrow> W t"
      using \<open>W s4\<close> by simp
  next
    fix i :: nat and a b :: "kernel_state \<times> real \<times> real"
    assume "case a of (t, M, T) \<Rightarrow> W t" "mass_out_node CALCULATE_RESIDUAL e i a = Inr b"
    then obtain re up re' where "fst a = s\<lparr>local_re := re, upwind_node := up\<rparr>"
      "fst b = (fst a)\<lparr>local_re := re'\<rparr>"
      using mass_out_node_residual_writes [of e i "fst a" "fst (snd a)" "snd (snd a)"
          "fst b" "fst (snd b)" "snd (snd b)"]
      unfolding W_def by (auto simp: split_beta)
    then have "fst b = s\<lparr>local_re := re', upwind_node := up\<rparr>"
      by simp
    then show "case b of (t, M, T) \<Rightarrow> W t"
      unfolding W_def by (auto simp: split_beta)
  qed
  then have "W s6" by simp
  have "W s7"
  proof (rule for_each_preserves [OF loop3, where P = W])
    show "W s6" by fact
  next
    fix i a b
    assume "W a" "redistribute_node CALCULATE_RESIDUAL e M T i a = Inr b"
    then obtain re up re' where "a = s\<lparr>local_re := re, upwind_node := up\<rparr>"
      "b = a\<lparr>local_re := re'\<rparr>"
      unfolding W_def using redistribute_node_residual_writes by blast
    then have "b = s\<lparr>local_re := re', upwind_node := up\<rparr>"
      by simp
    then show "W b"
      unfolding W_def by blast
  qed
  then obtain re up where "s7 = s\<lparr>local_re := re, upwind_node := up\<rparr>"
    unfolding W_def by blast
  moreover from acc obtain blocks where "s8 = s7\<lparr>re_blocks := blocks\<rparr>"
    by (auto simp: accumulateTaggedLocalResidual_def and_then_eq_Inr)
  moreover from fin obtain saved where "s' = s8\<lparr>save_in := saved\<rparr>"
    by blast
  ultimately have "s' = s\<lparr>local_re := re, upwind_node := up, re_blocks := blocks,
      save_in := saved\<rparr>"
    by simp
  then show ?thesis
    by blast
qed


lemma mass_out_node_jacobian_writes:
  "mass_out_node CALCULATE_JACOBIAN e n (a, M, T) = Inr (b, M', T') \<Longrightarrow>
     \<exists>re ke dt. b = a\<lparr>local_re := re, local_ke := ke, dtotal_mass_out := dt\<rparr>"
proof (cases "get_at (upwind_node a) n = Inr True")
  case True
  assume "mass_out_node CALCULATE_JACOBIAN e n (a, M, T) = Inr (b, M', T')"
  with True obtain a' re where a': "mass_out_jacobian e n a = Inr a'"
    and b: "b = a'\<lparr>local_re := re\<rparr>"
    by (auto simp: mass_out_node_def and_then_eq_Inr)
  have "\<exists>ke dt. a' = a\<lparr>local_ke := ke, dtotal_mass_out := dt\<rparr>"
  proof (cases "n_test e = n_phi e")
    case True
    with a' show ?thesis
      by (auto simp: mass_out_jacobian_def and_then_eq_Inr)
  next
    case False
    with a' obtain dt where "a' = a\<lparr>dtotal_mass_out := dt\<rparr>"
      by (auto simp: mass_out_jacobian_def and_then_eq_Inr)
    then have "a' = a\<lparr>local_ke := local_ke a, dtotal_mass_out := dt\<rparr>"
      by simp
    then show ?thesis by blast
  qed
  then obtain ke dt where "a' = a\<lparr>local_ke := ke, dtotal_mass_out := dt\<rparr>"
    by blast
  with b have "b = a\<lparr>local_re := re, local_ke := ke, dtotal_mass_out := dt\<rparr>"
    by simp
  then show ?thesis by blast
next
  case False
  assume "mass_out_node CALCULATE_JACOBIAN e n (a, M, T) = Inr (b, M', T')"
  with False have "b = a"
    by (auto simp: mass_out_node_def and_then_eq_Inr get_at_eq_Inr split: if_splits)
  then have "b = a\<lparr>local_re := local_re a, local_ke := local_ke a,
      dtotal_mass_out := dtotal_mass_out a\<rparr>"
    by simp
  then show ?thesis by blast
qed

lemma redistribute_jacobian_writes:
  "redistribute_jacobian T n j a = Inr b \<Longrightarrow> \<exists>ke. b = a\<lparr>local_ke := ke\<rparr>"
  by (auto simp: redistribute_jacobian_def and_then_eq_Inr)

lemma redistribute_node_jacobian_writes:
  assumes "redistribute_node CALCULATE_JACOBIAN e M T n a = Inr b"
  shows "\<exists>re ke. b = a\<lparr>local_re := re, local_ke := ke\<rparr>"
proof (cases "get_at (upwind_node a) n = Inr False")
  case True
  with assms obtain a' re where a': "for_each [0..<n_phi e] (redistribute_jacobian T n) a = Inr a'"
    and b: "b = a'\<lparr>local_re := re\<rparr>"
    by (auto simp: redistribute_node_def and_then_eq_Inr)
  have "\<exists>ke. a' = a\<lparr>local_ke := ke\<rparr>"
  proof (rule for_each_preserves [OF a', where P = "\<lambda>t. \<exists>ke. t = a\<lparr>local_ke := ke\<rparr>"])
    show "\<exists>ke. a = a\<lparr>local_ke := ke\<rparr>"
      by (rule exI [of _ "local_ke a"]) simp
  next
    fix j c d
    assume "\<exists>ke. c = a\<lparr>local_ke := ke\<rparr>" "redistribute_jacobian T n j c = Inr d"
    then obtain ke ke' where "c = a\<lparr>local_ke := ke\<rparr>" "d = c\<lparr>local_ke := ke'\<rparr>"
      using redistribute_jacobian_writes by blast
    then have "d = a\<lparr>local_ke := ke'\<rparr>"
      by simp
    then show "\<exists>ke. d = a\<lparr>local_ke := ke\<rparr>"
      by blast
  qed
  then obtain ke where "a' = a\<lparr>local_ke := ke\<rparr>"
    by blast
  with b have "b = a\<lparr>local_re := re, local_ke := ke\<rparr>"
    by simp
  then show ?thesis by blast
next
  case False
  with assms have "b = a"
    by (auto simp: redistribute_node_def and_then_eq_Inr get_at_eq_Inr split: if_splits)
  then have "b = a\<lparr>local_re := local_re a, local_ke := local_ke a\<rparr>"
    by simp
  then show ?thesis by blast
qed

lemma fullUpwind_jacobian_writes:
  assumes "fullUpwind CALCULATE_JACOBIAN e s = Inr s'"
  shows "\<exists>re ke up dt blocks saved.
           s' = s\<lparr>local_re := re, local_ke := ke, upwind_node := up, dtotal_mass_out := dt,
                  ke_blocks := blocks, diag_save_in := saved\<rparr>"
proof -
  define W where "W = (\<lambda>t :: kernel_state. \<exists>re ke up dt.
    t = s\<lparr>local_re := re, local_ke := ke, upwind_node := up, dtotal_mass_out := dt\<rparr>)"
  define s3 where "s3 = (prepareMatrixTag e (prepareVectorTag e s))
    \<lparr>upwind_node := resize (upwind_node (prepareMatrixTag e (prepareVectorTag e s))) (n_test e) False\<rparr>"
  from assms obtain s4 s6 M T s7 s10 where
    loop1: "for_each [0..<n_test e] (outflux_node e) s3 = Inr s4" and
    loop2: "for_each [0..<n_test e] (mass_out_node CALCULATE_JACOBIAN e)
              (s4\<lparr>dtotal_mass_out := replicate (n_test e) 0\<rparr>, 0, 0) = Inr (s6, M, T)" and
    loop3: "for_each [0..<n_test e] (redistribute_node CALCULATE_JACOBIAN e M T) s6 = Inr s7" and
    acc: "accumulateTaggedLocalMatrix s7 = Inr s10" and
    save: "(if has_diag_save_in e
            then and_then (diagonal (local_ke s10)) (\<lambda>diag.
                 and_then (update_each (\<lambda>sol. vec_add sol diag) (diag_save_in s10)) (\<lambda>saved.
                   Inr (s10\<lparr>diag_save_in := saved\<rparr>)))
            else Inr s10) = Inr s'"
    by (auto simp: fullUpwind_def Let_def and_then_eq_Inr s3_def)
  have fin: "\<exists>saved. s' = s10\<lparr>diag_save_in := saved\<rparr>"
    using save
    by (cases "has_diag_save_in e")
      (auto simp: and_then_eq_Inr intro: exI [of _ "diag_save_in s10"])
  have "s3 = s\<lparr>local_re := local_re s3, local_ke := local_ke s3, upwind_node := upwind_node s3,
      dtotal_mass_out := dtotal_mass_out s\<rparr>"
    by (simp add: s3_def prepareVectorTag_def prepareMatrixTag_def)
  then have "W s3"
    unfolding W_def by blast
  have "W s4"
  proof (rule for_each_preserves [OF loop1, where P = W])
    show "W s3" by fact
  next
    fix i a b
    assume "W a" "outflux_node e i a = Inr b"
    then obtain re ke up dt re' up' where
      "a = s\<lparr>local_re := re, local_ke := ke, upwind_node := up, dtotal_mass_out := dt\<rparr>"
      "b = a\<lparr>local_re := re', upwind_node := up'\<rparr>"
      unfolding W_def using outflux_node_writes by blast
    then have "b = s\<lparr>local_re := re', local_ke := ke, upwind_node := up', dtotal_mass_out := dt\<rparr>"
      by simp
    then show "W b"
      unfolding W_def by blast
  qed
  then obtain re ke up dt where
    "s4 = s\<lparr>local_re := re, local_ke := ke, upwind_node := up, dtotal_mass_out := dt\<rparr>"
    unfolding W_def by blast
  then have "s4\<lparr>dtotal_mass_out := replicate (n_test e) 0\<rparr> =
      s\<lparr>local_re := re, local_ke := ke, upwind_node := up,
        dtotal_mass_out := replicate (n_test e) 0\<rparr>"
    by simp
  then have W5: "W (s4\<lparr>dtotal_mass_out := replicate (n_test e) 0\<rparr>)"
    unfolding W_def by blast
  have "case (s6, M, T) of (t, M, T) \<Rightarrow> W t"
  proof (rule for_each_preserves [OF loop2])
    show "case (s4\<lparr>dtotal_mass_out := replicate (n_test e) 0\<rparr>, 0, 0) of (t, M, T) \<Rightarrow> W t"
      using W5 by simp
  next
    fix i :: nat and a b :: "kernel_state \<times> real \<times> real"
    assume "case a of (t, M, T) \<Rightarrow> W t" "mass_out_node CALCULATE_JACOBIAN e i a = Inr b"
    then obtain re ke up dt re' ke' dt' where
      "fst a = s\<lparr>local_re := re, local_ke := ke, upwind_node := up, dtotal_mass_out := dt\<rparr>"
      "fst b = (fst a)\<lparr>local_re := re', local_ke := ke', dtotal_mass_out := dt'\<rparr>"
      using mass_out_node_jacobian_writes [of e i "fst a" "fst (snd a)" "snd (snd a)"
          "fst b" "fst (snd b)" "snd (snd b)"]
      unfolding W_def by (auto simp: split_beta)
    then have "fst b = s\<lparr>local_re := re', local_ke := ke', upwind_node := up,
        dtotal_mass_out := dt'\<rparr>"
      by simp
    then show "case b of (t, M, T) \<Rightarrow> W t"
      unfolding W_def by (auto simp: split_beta)
  qed
  then have "W s6" by simp
  have "W s7"
  proof (rule for_each_preserves [OF loop3, where P = W])
    show "W s6" by fact
  next
    fix i a b
    assume "W a" "redistribute_node CALCULATE_JACOBIAN e M T i a = Inr b"
    then obtain re ke up dt re' ke' where
      "a = s\<lparr>local_re := re, local_ke := ke, upwind_node := up, dtotal_mass_out := dt\<rparr>"
      "b = a\<lparr>local_re := re', local_ke := ke'\<rparr>"
      unfolding W_def using redistribute_node_jacobian_writes by blast
    then have "b = s\<lparr>local_re := re', local_ke := ke', upwind_node := up, dtotal_mass_out := dt\<rparr>"
      by simp
    then show "W b"
      unfolding W_def by blast
  qed
  then obtain re ke up dt where
    "s7 = s\<lparr>local_re := re, local_ke := ke, upwind_node := up, dtotal_mass_out := dt\<rparr>"
    unfolding W_def by blast
  moreover from acc obtain blocks where "s10 = s7\<lparr>ke_blocks := blocks\<rparr>"
    by (auto simp: accumulateTaggedLocalMatrix_def and_then_eq_Inr)
  moreover from fin obtain saved where "s' = s10\<lparr>diag_save_in := saved\<rparr>"
    by blast
  ultimately have "s' = s\<lparr>local_re := re, local_ke := ke, upwind_node := up,
      dtotal_mass_out := dt, ke_blocks := blocks, diag_save_in := saved\<rparr>"
    by simp
  then show ?thesis
    by blast
qed

section \<open>The residual pass and the local Jacobian\<close>

text \<open>The residual pass goes the same way whatever the local Jacobian holds.\<close>

lemma for_each_commute:
  assumes "\<And>i a. body i (g a) = map_sum id g (body i a)"
  shows "for_each xs body (g s) = map_sum id g (for_each xs body s)"
proof (induction xs arbitrary: s)
  case Nil
  show ?case by simp
next
  case (Cons i xs)
  show ?case
    by (cases "body i s") (simp_all add: assms Cons.IH)
qed

lemma outflux_qp_ignores_local_ke:
  "outflux_qp e i qp (a\<lparr>local_ke := K\<rparr>) =
     map_sum id (\<lambda>t. t\<lparr>local_ke := K\<rparr>) (outflux_qp e i qp a)"
  by (auto simp: outflux_qp_def and_then_def split: sum.splits)

lemma outflux_node_ignores_local_ke:
  "outflux_node e i (a\<lparr>local_ke := K\<rparr>) =
     map_sum id (\<lambda>t. t\<lparr>local_ke := K\<rparr>) (outflux_node e i a)"
proof -
  have "for_each [0..<n_points e] (outflux_qp e i) (a\<lparr>local_ke := K\<rparr>) =
      map_sum id (\<lambda>t. t\<lparr>local_ke := K\<rparr>) (for_each [0..<n_points e] (outflux_qp e i) a)"
    by (rule for_each_commute [where g = "\<lambda>t. t\<lparr>local_ke := K\<rparr>" and body = "outflux_qp e i"])
      (rule outflux_qp_ignores_local_ke)
  then show ?thesis
    by (auto simp: outflux_node_def and_then_def split: sum.splits)
qed

lemma mass_out_node_ignores_local_ke:
  "mass_out_node CALCULATE_RESIDUAL e n (apfst (\<lambda>t. t\<lparr>local_ke := K\<rparr>) a) =
     map_sum id (apfst (\<lambda>t. t\<lparr>local_ke := K\<rparr>)) (mass_out_node CALCULATE_RESIDUAL e n a)"
  by (cases a) (auto simp: mass_out_node_def and_then_def split: sum.splits)

lemma redistribute_node_ignores_local_ke:
  "redistribute_node CALCULATE_RESIDUAL e M T n (a\<lparr>local_ke := K\<rparr>) =
     map_sum id (\<lambda>t. t\<lparr>local_ke := K\<rparr>) (redistribute_node CALCULATE_RESIDUAL e M T n a)"
  by (auto simp: redistribute_node_def and_then_def split: sum.splits)

lemma accumulateTaggedLocalResidual_ignores_local_ke:
  "accumulateTaggedLocalResidual (a\<lparr>local_ke := K\<rparr>) =
     map_sum id (\<lambda>t. t\<lparr>local_ke := K\<rparr>) (accumulateTaggedLocalResidual a)"
  by (auto simp: accumulateTaggedLocalResidual_def and_then_def split: sum.splits)

lemma and_then_Inr_right [simp]: "and_then m Inr = m"
  by (cases m) simp_all

lemma fullUpwind_residual_ignores_local_ke:
  "fullUpwind CALCULATE_RESIDUAL e (s\<lparr>local_ke := K\<rparr>) =
     map_sum id (\<lambda>t. t\<lparr>local_ke := K\<rparr>) (fullUpwind CALCULATE_RESIDUAL e s)"
proof -
  define g where "g = (\<lambda>t :: kernel_state. t\<lparr>local_ke := K\<rparr>)"
  define start where "start = (\<lambda>t. (prepareVectorTag e t)
    \<lparr>upwind_node := resize (upwind_node (prepareVectorTag e t)) (n_test e) False\<rparr>)"
  define finish where "finish = (\<lambda>s7. and_then (accumulateTaggedLocalResidual s7) (\<lambda>s8.
    if has_save_in e
    then and_then (update_each (\<lambda>sol. vec_add sol (local_re s8)) (save_in s8))
           (\<lambda>saved. Inr (s8\<lparr>save_in := saved\<rparr>))
    else Inr s8))"
  define loop1 where "loop1 = for_each [0..<n_test e] (outflux_node e)"
  define loop2 where "loop2 = for_each [0..<n_test e] (mass_out_node CALCULATE_RESIDUAL e)"
  define loop3 where
    "loop3 = (\<lambda>M T. for_each [0..<n_test e] (redistribute_node CALCULATE_RESIDUAL e M T))"
  have run: "fullUpwind CALCULATE_RESIDUAL e t =
      and_then (loop1 (start t)) (\<lambda>s4.
      and_then (loop2 (s4, 0, 0)) (\<lambda>(s6, M, T).
      and_then (loop3 M T s6) finish))" for t
    by (simp add: fullUpwind_def Let_def start_def finish_def loop1_def loop2_def loop3_def)
  have start: "start (g t) = g (start t)" for t
    by (simp add: g_def start_def prepareVectorTag_def)
  have loop1: "loop1 (g t) = map_sum id g (loop1 t)" for t
    unfolding g_def loop1_def
    by (rule for_each_commute [where g = "\<lambda>t. t\<lparr>local_ke := K\<rparr>" and body = "outflux_node e"])
      (rule outflux_node_ignores_local_ke)
  have loop2: "loop2 (g t, M, T) = map_sum id (apfst g) (loop2 (t, M, T))" for t M T
  proof -
    have "loop2 (apfst g (t, M, T)) = map_sum id (apfst g) (loop2 (t, M, T))"
      unfolding g_def loop2_def
      by (rule for_each_commute [where g = "apfst (\<lambda>t. t\<lparr>local_ke := K\<rparr>)"
            and body = "mass_out_node CALCULATE_RESIDUAL e"])
        (rule mass_out_node_ignores_local_ke)
    then show ?thesis by simp
  qed
  have loop3: "loop3 M T (g t) = map_sum id g (loop3 M T t)" for t M T
    unfolding g_def loop3_def
    by (rule for_each_commute [where g = "\<lambda>t. t\<lparr>local_ke := K\<rparr>"
          and body = "redistribute_node CALCULATE_RESIDUAL e M T"])
      (rule redistribute_node_ignores_local_ke)
  have finish: "finish (g t) = map_sum id g (finish t)" for t
  proof (cases "accumulateTaggedLocalResidual t")
    case (Inl err)
    then show ?thesis
      using accumulateTaggedLocalResidual_ignores_local_ke [where a = t and K = K]
      by (simp add: finish_def g_def)
  next
    case (Inr s8)
    then have "accumulateTaggedLocalResidual (g t) = Inr (g s8)"
      using accumulateTaggedLocalResidual_ignores_local_ke [where a = t and K = K] by (simp add: g_def)
    with Inr show ?thesis
      by (cases "update_each (\<lambda>sol. vec_add sol (local_re s8)) (save_in s8)")
        (simp_all add: finish_def g_def)
  qed
  have stage3: "and_then (loop3 M T (g t)) finish = map_sum id g (and_then (loop3 M T t) finish)"
    for M T t
    by (cases "loop3 M T t") (simp_all add: loop3 finish)
  have stage2: "and_then (loop2 (g t, 0, 0)) (\<lambda>(s6, M, T). and_then (loop3 M T s6) finish) =
      map_sum id g (and_then (loop2 (t, 0, 0)) (\<lambda>(s6, M, T). and_then (loop3 M T s6) finish))"
    for t
  proof (cases "loop2 (t, 0, 0)")
    case (Inl err)
    then show ?thesis by (simp add: loop2)
  next
    case (Inr r)
    then show ?thesis by (cases r) (simp add: loop2 stage3)
  qed
  have "fullUpwind CALCULATE_RESIDUAL e (g s) = map_sum id g (fullUpwind CALCULATE_RESIDUAL e s)"
    unfolding run start
    by (cases "loop1 (start s)") (simp_all add: loop1 stage2)
  then show ?thesis
    by (simp add: g_def)
qed

section \<open>The classification of the nodes\<close>

text \<open>The classification is settled by the first loop, in either pass.\<close>

lemma mass_out_node_keeps_upwind_node:
  assumes "mass_out_node res_or_jac e n (a, M, T) = Inr (b, M', T')"
  shows "upwind_node b = upwind_node a"
proof (cases res_or_jac)
  case CALCULATE_RESIDUAL
  with assms obtain re where "b = a\<lparr>local_re := re\<rparr>"
    using mass_out_node_residual_writes by blast
  then show ?thesis by simp
next
  case CALCULATE_JACOBIAN
  with assms obtain re ke dt where "b = a\<lparr>local_re := re, local_ke := ke, dtotal_mass_out := dt\<rparr>"
    using mass_out_node_jacobian_writes by blast
  then show ?thesis by simp
qed

lemma redistribute_node_keeps_upwind_node:
  assumes "redistribute_node res_or_jac e M T n a = Inr b"
  shows "upwind_node b = upwind_node a"
proof (cases res_or_jac)
  case CALCULATE_RESIDUAL
  with assms obtain re where "b = a\<lparr>local_re := re\<rparr>"
    using redistribute_node_residual_writes by blast
  then show ?thesis by simp
next
  case CALCULATE_JACOBIAN
  with assms obtain re ke where "b = a\<lparr>local_re := re, local_ke := ke\<rparr>"
    using redistribute_node_jacobian_writes by blast
  then show ?thesis by simp
qed

lemma fullUpwind_classification:
  assumes "wf_element e" and "fullUpwind res_or_jac e s = Inr s'"
  shows "upwind_node s' = upwindClassification e"
proof -
  define s2 where "s2 = (if res_or_jac = CALCULATE_JACOBIAN
    then prepareMatrixTag e (prepareVectorTag e s) else prepareVectorTag e s)"
  define s3 where "s3 = s2\<lparr>upwind_node := resize (upwind_node s2) (n_test e) False\<rparr>"
  from assms(2) obtain s4 s6 M T s7 where
    loop1: "for_each [0..<n_test e] (outflux_node e) s3 = Inr s4" and
    loop2: "for_each [0..<n_test e] (mass_out_node res_or_jac e)
              (if res_or_jac = CALCULATE_JACOBIAN
               then s4\<lparr>dtotal_mass_out := replicate (n_test e) 0\<rparr> else s4, 0, 0) =
            Inr (s6, M, T)" and
    loop3: "for_each [0..<n_test e] (redistribute_node res_or_jac e M T) s6 = Inr s7" and
    fin: "upwind_node s' = upwind_node s7"
    by (cases res_or_jac)
      (auto simp: fullUpwind_def Let_def and_then_eq_Inr s3_def s2_def
        accumulateTaggedLocalResidual_def accumulateTaggedLocalMatrix_def split: if_splits)
  have len3: "length (local_re s3) = n_test e" "length (upwind_node s3) = n_test e"
    and re3: "local_re s3 = replicate (n_test e) 0"
    by (simp_all add: s3_def s2_def prepareVectorTag_def prepareMatrixTag_def resize_def)
  have "upwind_node s4 = map (\<lambda>i. if i < n_test e then 0 \<le> local_re s3 ! i + rawFlux e i
                                    else upwind_node s3 ! i) [0..<n_test e]"
    using outflux_node_loop [OF assms(1) len3, of "n_test e"] loop1 by auto
  also have "\<dots> = upwindClassification e"
    unfolding upwindClassification_def by (rule map_upt_cong) (simp add: re3)
  finally have up4: "upwind_node s4 = upwindClassification e" .
  have "case (s6, M, T) of (t, M, T) \<Rightarrow> upwind_node t = upwindClassification e"
  proof (rule for_each_preserves [OF loop2])
    show "case (if res_or_jac = CALCULATE_JACOBIAN
                then s4\<lparr>dtotal_mass_out := replicate (n_test e) 0\<rparr> else s4, 0, 0) of
            (t, M, T) \<Rightarrow> upwind_node t = upwindClassification e"
      using up4 by simp
  next
    fix i :: nat and a b :: "kernel_state \<times> real \<times> real"
    assume "case a of (t, M, T) \<Rightarrow> upwind_node t = upwindClassification e"
      "mass_out_node res_or_jac e i a = Inr b"
    then show "case b of (t, M, T) \<Rightarrow> upwind_node t = upwindClassification e"
      using mass_out_node_keeps_upwind_node [of res_or_jac e i "fst a" "fst (snd a)"
          "snd (snd a)" "fst b" "fst (snd b)" "snd (snd b)"]
      by (simp add: split_beta)
  qed
  then have up6: "upwind_node s6 = upwindClassification e"
    by simp
  have "upwind_node s7 = upwindClassification e"
  proof (rule for_each_preserves [OF loop3,
        where P = "\<lambda>t. upwind_node t = upwindClassification e"])
    show "upwind_node s6 = upwindClassification e" by (rule up6)
  next
    fix i a b
    assume "upwind_node a = upwindClassification e"
      "redistribute_node res_or_jac e M T i a = Inr b"
    then show "upwind_node b = upwindClassification e"
      using redistribute_node_keeps_upwind_node [of res_or_jac e M T i a b] by simp
  qed
  with fin show ?thesis by simp
qed

section \<open>Rounding to double precision\<close>

text \<open>
  \<open>binary64 x\<close> is a number with a significand of 53 bits, no further from \<open>x\<close> than half
  the spacing of such numbers around \<open>x\<close>; its relative error is at most \<open>2 ^ -53\<close>.
\<close>

lemma bit_length_1: "bit_length (Suc 0) = Suc 0"
  by (subst bit_length.simps, subst bit_length.simps) simp

lemma real_bit_length_bounds:
  assumes "0 < n"
  shows "(2::real) ^ (bit_length n - 1) \<le> real n" "real n + 1 \<le> 2 ^ bit_length n"
    "0 < bit_length n"
proof -
  have nat_bounds: "2 ^ (bit_length n - 1) \<le> n \<and> n < 2 ^ bit_length n"
    if "0 < n" for n
    using that
  proof (induction n rule: bit_length.induct)
    case (1 n)
    show ?case
    proof (cases "n div 2 = 0")
      case True
      with "1.prems" have "n = Suc 0"
        by (simp add: div_eq_0_iff)
      then show ?thesis
        by (simp add: bit_length_1)
    next
      case False
      then have "2 ^ (bit_length (n div 2) - 1) \<le> n div 2 \<and>
          n div 2 < 2 ^ bit_length (n div 2)"
        using "1.IH" "1.prems" by simp
      moreover have "0 < bit_length (n div 2)"
        using False by (subst bit_length.simps) simp
      then have "(2::nat) ^ bit_length (n div 2) = 2 * 2 ^ (bit_length (n div 2) - 1)"
        by (cases "bit_length (n div 2)") simp_all
      ultimately have "2 ^ bit_length (n div 2) \<le> n \<and> n < 2 * 2 ^ bit_length (n div 2)"
        by linarith
      with "1.prems" show ?thesis
        by (subst (1 2) bit_length.simps) simp
    qed
  qed
  from nat_bounds [OF assms] have "2 ^ (bit_length n - 1) \<le> n" "Suc n \<le> 2 ^ bit_length n"
    by simp_all
  from of_nat_mono [OF this(1), where 'a = real] of_nat_mono [OF this(2), where 'a = real]
  show "(2::real) ^ (bit_length n - 1) \<le> real n" "real n + 1 \<le> 2 ^ bit_length n"
    by simp_all
  show "0 < bit_length n"
    using assms by (subst bit_length.simps) simp
qed

lemma binade_bounds:
  assumes "0 < x"
  shows "2 powi binade x \<le> x \<and> x < 2 powi (binade x + 1)"
proof (cases "1 \<le> x")
  case True
  define n where "n = nat \<lfloor>x\<rfloor>"
  have n: "0 < n" "real n \<le> x" "x < real n + 1"
    using True unfolding n_def by linarith+
  note b = real_bit_length_bounds [OF n(1)]
  have "2 ^ (bit_length n - 1) \<le> x" "x < 2 ^ bit_length n"
    using b(1,2) n(2,3) by linarith+
  moreover have "binade x = int (bit_length n) - 1"
    using True by (simp add: binade_def n_def)
  then have "binade x = int (bit_length n - 1)" "binade x + 1 = int (bit_length n)"
    using b(3) by simp_all
  then have "2 powi binade x = (2::real) ^ (bit_length n - 1)"
    "2 powi (binade x + 1) = (2::real) ^ bit_length n"
    by (simp_all only: power_int_of_nat)
  ultimately show ?thesis
    by (simp only:)
next
  case False
  define y where "y = 1 / x"
  define m where "m = nat (\<lceil>y\<rceil> - 1)"
  define k where "k = bit_length m"
  have y: "1 < y"
    using False assms by (simp add: y_def)
  then have "2 \<le> \<lceil>y\<rceil>"
    by linarith
  then have m: "0 < m" "real m < y" "y \<le> real m + 1"
    unfolding m_def by linarith+
  note b = real_bit_length_bounds [OF m(1), folded k_def]
  have "2 ^ (k - 1) < y" "y \<le> 2 ^ k"
    using b(1,2) m(2,3) by linarith+
  then have "1 / 2 ^ k \<le> x" "x < 1 / 2 ^ (k - 1)"
    using assms by (simp_all add: y_def field_simps)
  moreover have "binade x = - int k"
    using False by (simp add: binade_def k_def m_def y_def)
  then have "binade x = - int k" "binade x + 1 = - int (k - 1)"
    using b(3) by simp_all
  then have "2 powi binade x = 1 / (2::real) ^ k"
    "2 powi (binade x + 1) = 1 / (2::real) ^ (k - 1)"
    by (simp_all only: power_int_minus power_int_of_nat inverse_eq_divide)
  ultimately show ?thesis
    by (simp only:)
qed

lemma round_half_even_nearest: "\<bar>of_int (round_half_even x) - x\<bar> \<le> 1 / 2"
  unfolding round_half_even_def Let_def by (simp; linarith)

lemma round_half_even_bounds:
  "of_int a \<le> x \<Longrightarrow> x \<le> of_int b \<Longrightarrow> a \<le> round_half_even x \<and> round_half_even x \<le> b"
  unfolding round_half_even_def Let_def by (auto; linarith)


lemma ulp_pos: "0 < ulp x"
  by (simp add: ulp_def)

lemma ulp_bounds:
  assumes "x \<noteq> 0"
  shows "2 ^ 52 * ulp x \<le> \<bar>x\<bar>" "\<bar>x\<bar> < 2 ^ 53 * ulp x"
proof -
  have "0 < \<bar>x\<bar>"
    using assms by simp
  note b = binade_bounds [OF this]
  have "(2::real) powi (52 + (binade \<bar>x\<bar> - 52)) = 2 powi 52 * 2 powi (binade \<bar>x\<bar> - 52)"
    "(2::real) powi (53 + (binade \<bar>x\<bar> - 52)) = 2 powi 53 * 2 powi (binade \<bar>x\<bar> - 52)"
    by (rule power_int_add, simp)+
  moreover have "52 + (binade \<bar>x\<bar> - 52) = binade \<bar>x\<bar>" "53 + (binade \<bar>x\<bar> - 52) = binade \<bar>x\<bar> + 1"
    by simp_all
  ultimately have "(2::real) powi binade \<bar>x\<bar> = 2 ^ 52 * ulp x"
    "(2::real) powi (binade \<bar>x\<bar> + 1) = 2 ^ 53 * ulp x"
    by (simp_all add: ulp_def)
  then show "2 ^ 52 * ulp x \<le> \<bar>x\<bar>" "\<bar>x\<bar> < 2 ^ 53 * ulp x"
    using b by simp_all
qed

lemma binary64_nearest:
  assumes "x \<noteq> 0"
  defines "m \<equiv> round_half_even (\<bar>x\<bar> / ulp x)"
  shows "binary64 x = sgn x * of_int m * ulp x" "2 ^ 52 \<le> m" "m \<le> 2 ^ 53"
    "\<bar>binary64 x - x\<bar> \<le> ulp x / 2"
proof -
  show eq: "binary64 x = sgn x * of_int m * ulp x"
    using assms(1) by (simp add: binary64_def m_def)
  have "of_int (2 ^ 52) \<le> \<bar>x\<bar> / ulp x" "\<bar>x\<bar> / ulp x \<le> of_int (2 ^ 53)"
    using ulp_bounds [OF assms(1)] ulp_pos [of x] by (simp_all add: field_simps)
  from round_half_even_bounds [OF this] show "2 ^ 52 \<le> m" "m \<le> 2 ^ 53"
    by (simp_all add: m_def)
  have "binary64 x - x = sgn x * ((of_int m - \<bar>x\<bar> / ulp x) * ulp x)"
    using ulp_pos [of x] by (simp add: eq algebra_simps sgn_real_def abs_real_def)
  then have "\<bar>binary64 x - x\<bar> = \<bar>of_int m - \<bar>x\<bar> / ulp x\<bar> * ulp x"
    using assms(1) ulp_pos [of x] by (simp add: abs_mult sgn_real_def)
  also have "\<dots> \<le> 1 / 2 * ulp x"
    using round_half_even_nearest [of "\<bar>x\<bar> / ulp x"] ulp_pos [of x]
    by (intro mult_right_mono) (simp_all add: m_def)
  finally show "\<bar>binary64 x - x\<bar> \<le> ulp x / 2"
    by simp
qed

lemma binary64_relative_error: "\<bar>binary64 x - x\<bar> \<le> \<bar>x\<bar> / 2 ^ 53"
proof (cases "x = 0")
  case True
  then show ?thesis
    by (simp add: binary64_def)
next
  case False
  from binary64_nearest(4) [OF False] ulp_bounds(1) [OF False] show ?thesis
    by simp
qed

section \<open>The residual pass with and without rounding\<close>
















section \<open>The boundary flux kernel\<close>

text \<open>
  Claim C4. At every boundary quadrature point, \<open>computeQpJacobian\<close> of ThermalFluidFluxBC
  returns exactly zero when the advective flux direction \<open>v \<cdot> n\<close> is non-positive (the inflow
  branch), and returns \<open>test * (v \<cdot> n) * phi * density * heat_capacity * volume_fraction\<close>
  when \<open>v \<cdot> n\<close> is positive (the outflow branch).
\<close>

theorem bc_jacobian_branches:
  "(dot (ThermalFluidFluxBC_qp.ux q, ThermalFluidFluxBC_qp.uy q, ThermalFluidFluxBC_qp.uz q)
        (normals q) \<le> 0
      \<longrightarrow> ThermalFluidFluxBC_computeQpJacobian q = 0) \<and>
   (dot (ThermalFluidFluxBC_qp.ux q, ThermalFluidFluxBC_qp.uy q, ThermalFluidFluxBC_qp.uz q)
        (normals q) > 0
      \<longrightarrow> ThermalFluidFluxBC_computeQpJacobian q =
          test q *
          dot (ThermalFluidFluxBC_qp.ux q, ThermalFluidFluxBC_qp.uy q, ThermalFluidFluxBC_qp.uz q)
              (normals q) *
          phi q * ThermalFluidFluxBC_qp.density q * ThermalFluidFluxBC_qp.heat_cap q *
          ThermalFluidFluxBC_qp.volfrac q)"
  by (simp add: ThermalFluidFluxBC_computeQpJacobian_def ThermalFluidFluxBC_vec_def)

theorem bc_jacobian_branches_witness:
  "dot (- 1, 4, 0) (1, 0, 0) \<le> 0 \<and> ThermalFluidFluxBC_computeQpJacobian bc_inflow_point = 0 \<and>
   dot (1, 4, 0) (1, 0, 0) > 0 \<and> ThermalFluidFluxBC_computeQpJacobian bc_outflow_point = 105"
  using bc_jacobian_branches [of bc_inflow_point] bc_jacobian_branches [of bc_outflow_point]
  by (simp add: bc_inflow_point_def bc_outflow_point_def)

text \<open>
  Claim C5. At every boundary quadrature point of ThermalFluidFluxBC, and for each of the
  velocity-component variables \<open>vel_x\<close>, \<open>vel_y\<close>, \<open>vel_z\<close> (three variables, each with an
  identifier of its own), \<open>computeQpOffDiagJacobian\<close> for that variable returns
  \<open>test * phi * n(k) * density * heat_capacity * volume_fraction\<close>, with \<open>k\<close> the index of
  the component, multiplied by the interior unknown \<open>u\<close> when \<open>v \<cdot> n > 0\<close> and by the outside
  temperature when \<open>v \<cdot> n \<le> 0\<close>.
\<close>

theorem bc_offdiag_velocity_components:
  fixes c :: ThermalFluidFluxBC_vars and q :: ThermalFluidFluxBC_qp
  defines "vn \<equiv> dot (ThermalFluidFluxBC_qp.ux q, ThermalFluidFluxBC_qp.uy q,
                        ThermalFluidFluxBC_qp.uz q) (normals q)"
  defines "expected \<equiv> \<lambda>k. test q * phi q * comp (normals q) k *
      ThermalFluidFluxBC_qp.density q * ThermalFluidFluxBC_qp.heat_cap q *
      ThermalFluidFluxBC_qp.volfrac q *
      (if vn > 0 then u q else outside_temp q)"
  assumes "distinct [ThermalFluidFluxBC_vars.ux_var c, ThermalFluidFluxBC_vars.uy_var c,
                     ThermalFluidFluxBC_vars.uz_var c]"
  shows "ThermalFluidFluxBC_computeQpOffDiagJacobian c q (ThermalFluidFluxBC_vars.ux_var c) =
           expected 0 \<and>
         ThermalFluidFluxBC_computeQpOffDiagJacobian c q (ThermalFluidFluxBC_vars.uy_var c) =
           expected 1 \<and>
         ThermalFluidFluxBC_computeQpOffDiagJacobian c q (ThermalFluidFluxBC_vars.uz_var c) =
           expected 2"
  using assms(3)
  by (auto simp: ThermalFluidFluxBC_computeQpOffDiagJacobian_def ThermalFluidFluxBC_vec_def
      vn_def expected_def)

theorem bc_offdiag_velocity_components_witness:
  "distinct [ThermalFluidFluxBC_vars.ux_var bc_distinct_vars,
             ThermalFluidFluxBC_vars.uy_var bc_distinct_vars,
             ThermalFluidFluxBC_vars.uz_var bc_distinct_vars] \<and>
   dot (1, 4, 0) (2, 3, 5) > 0 \<and>
   ThermalFluidFluxBC_computeQpOffDiagJacobian bc_distinct_vars bc_oblique_outflow_point 4 =
     73500 \<and>
   ThermalFluidFluxBC_computeQpOffDiagJacobian bc_distinct_vars bc_oblique_outflow_point 5 =
     110250 \<and>
   ThermalFluidFluxBC_computeQpOffDiagJacobian bc_distinct_vars bc_oblique_outflow_point 6 =
     183750 \<and>
   dot (- 1, - 4, 0) (2, 3, 5) \<le> 0 \<and>
   ThermalFluidFluxBC_computeQpOffDiagJacobian bc_distinct_vars bc_oblique_inflow_point 4 =
     63000 \<and>
   ThermalFluidFluxBC_computeQpOffDiagJacobian bc_distinct_vars bc_oblique_inflow_point 5 =
     94500 \<and>
   ThermalFluidFluxBC_computeQpOffDiagJacobian bc_distinct_vars bc_oblique_inflow_point 6 =
     157500"
  using bc_offdiag_velocity_components [of bc_distinct_vars bc_oblique_outflow_point]
    bc_offdiag_velocity_components [of bc_distinct_vars bc_oblique_inflow_point]
  by (simp add: bc_distinct_vars_def bc_oblique_outflow_point_def bc_oblique_inflow_point_def
      bc_inflow_point_def)

text \<open>
  Claim C6. Where \<open>v \<cdot> n = 0\<close>, the two branch expressions of \<open>computeQpResidual\<close> of
  ThermalFluidFluxBC have the same value, zero, and so has the residual itself: the
  residual is continuous at the point where the branch changes.
\<close>

theorem bc_residual_branches_agree_at_zero:
  assumes "dot (ThermalFluidFluxBC_qp.ux q, ThermalFluidFluxBC_qp.uy q,
                ThermalFluidFluxBC_qp.uz q) (normals q) = 0"
  shows "ThermalFluidFluxBC_residual_output q = ThermalFluidFluxBC_residual_input q \<and>
         ThermalFluidFluxBC_residual_output q = 0 \<and>
         ThermalFluidFluxBC_computeQpResidual q = 0"
  using assms
  by (simp add: ThermalFluidFluxBC_residual_output_def ThermalFluidFluxBC_residual_input_def
      ThermalFluidFluxBC_computeQpResidual_def ThermalFluidFluxBC_vec_def)

theorem bc_residual_branches_agree_at_zero_witness:
  "dot (0, 4, 0) (1, 0, 0) = 0 \<and>
   ThermalFluidFluxBC_residual_output bc_tangent_point =
     ThermalFluidFluxBC_residual_input bc_tangent_point \<and>
   ThermalFluidFluxBC_computeQpResidual bc_tangent_point = 0"
  using bc_residual_branches_agree_at_zero [of bc_tangent_point]
  by (simp add: bc_tangent_point_def bc_inflow_point_def)

section \<open>The convection kernel\<close>

text \<open>
  Claim C7. With \<open>h = 5\<close>, \<open>A = 3\<close>, \<open>volfrac = 0.5\<close>, \<open>u = 400\<close> and \<open>u_other = 300\<close> at a
  quadrature point, \<open>computeQpResidual\<close> of HeatConvection returns \<open>test * 750\<close>, and
  \<open>computeQpOffDiagJacobian\<close> for the coupled temperature variable returns
  \<open>- test * 7.5 * trial\<close>.
\<close>

theorem convection_scenario:
  fixes q :: HeatConvection_qp
  defines "q' \<equiv> q\<lparr>u := 400, hs := 5, other_temp := 300, HeatConvection_qp.volfrac := 0.5,
                    specarea := 3\<rparr>"
  shows "HeatConvection_computeQpResidual q' = test q * 750 \<and>
         HeatConvection_computeQpOffDiagJacobian c q' (other_temp_var c) = - test q * 7.5 * phi q"
  by (simp add: HeatConvection_computeQpResidual_def HeatConvection_computeQpOffDiagJacobian_def
      q'_def)

section \<open>Variables a kernel is not coupled to\<close>

text \<open>
  Claim C9. For each of HeatAdvectionConservative, ThermalFluidFluxBC, HeatConvection and
  HeatConduction, and for every identifier \<open>jvar\<close> that is not one of the kernel's declared
  coupled variables, \<open>computeQpOffDiagJacobian\<close> returns exactly 0, whatever the values at
  the quadrature point.
\<close>

theorem offdiag_zero_for_uncoupled_variable:
  "(jvar \<notin> {HeatAdvectionConservative_vars.density_var ca,
             HeatAdvectionConservative_vars.heat_cap_var ca,
             HeatAdvectionConservative_vars.volfrac_var ca,
             HeatAdvectionConservative_vars.ux_var ca,
             HeatAdvectionConservative_vars.uy_var ca,
             HeatAdvectionConservative_vars.uz_var ca}
      \<longrightarrow> HeatAdvectionConservative_computeQpOffDiagJacobian ca qa jvar = 0) \<and>
   (jvar \<notin> {ThermalFluidFluxBC_vars.density_var cb,
             ThermalFluidFluxBC_vars.heat_cap_var cb,
             ThermalFluidFluxBC_vars.volfrac_var cb,
             ThermalFluidFluxBC_vars.ux_var cb,
             ThermalFluidFluxBC_vars.uy_var cb,
             ThermalFluidFluxBC_vars.uz_var cb,
             outside_temp_var cb}
      \<longrightarrow> ThermalFluidFluxBC_computeQpOffDiagJacobian cb qb jvar = 0) \<and>
   (jvar \<notin> {hs_var cv, other_temp_var cv, HeatConvection_vars.volfrac_var cv, specarea_var cv}
      \<longrightarrow> HeatConvection_computeQpOffDiagJacobian cv qv jvar = 0) \<and>
   (jvar \<notin> {conductivity_var cd, HeatConduction_vars.volfrac_var cd}
      \<longrightarrow> HeatConduction_computeQpOffDiagJacobian cd qd jvar = 0)"
  by (simp add: HeatAdvectionConservative_computeQpOffDiagJacobian_def
      ThermalFluidFluxBC_computeQpOffDiagJacobian_def
      HeatConvection_computeQpOffDiagJacobian_def
      HeatConduction_computeQpOffDiagJacobian_def)

theorem offdiag_zero_for_uncoupled_variable_witness:
  "(9::nat) \<notin> {1, 2, 3, 4, 5, 6, 7} \<and>
   HeatAdvectionConservative_computeQpOffDiagJacobian advection_vars advection_point 9 = 0 \<and>
   ThermalFluidFluxBC_computeQpOffDiagJacobian bc_distinct_vars bc_outflow_point 9 = 0 \<and>
   HeatConvection_computeQpOffDiagJacobian convection_vars convection_point 9 = 0 \<and>
   HeatConduction_computeQpOffDiagJacobian conduction_vars conduction_point 9 = 0"
  using offdiag_zero_for_uncoupled_variable
    [of 9 advection_vars advection_point bc_distinct_vars bc_outflow_point
        convection_vars convection_point conduction_vars conduction_point]
  by (simp add: advection_vars_def bc_distinct_vars_def convection_vars_def conduction_vars_def)

section \<open>The conservative upwind advection engine\<close>




text \<open>
  Claim C2. For every element in which all nodes are classified outflow (equivalently,
  \<open>totalIn = 0\<close>), the full-upwind computation divides by \<open>totalIn\<close> for no node: the pass
  returns although a division by zero is a failure of the embedding, the redistribution
  step leaves the state as it is on every node, and each node's residual is its raw outflow
  value \<open>rawFlux[i] * u_nodal[i]\<close>. The locals \<open>total_mass_out\<close> and \<open>total_in\<close> of the
  pass are \<open>totalMassOut\<close> and \<open>totalIn\<close> by lemma \<open>residual_pass_loops\<close>.
\<close>

theorem full_upwind_all_outflow:
  assumes "wf_element e" "n_test e \<le> length (u_nodal e)" "wf_residual_targets e s"
    and "totalIn e = 0 \<or> (\<forall>n<n_test e. rawFlux e n \<ge> 0)"
  shows "totalIn e = 0 \<and> (\<forall>n<n_test e. rawFlux e n \<ge> 0) \<and>
    (\<exists>s'. fullUpwind CALCULATE_RESIDUAL e s = Inr s' \<and>
       (\<forall>n<n_test e. upwind_node s' ! n) \<and>
       (\<forall>n<n_test e. local_re s' ! n = rawFlux e n * u_nodal e ! n) \<and>
       (\<forall>n<n_test e. redistribute_node CALCULATE_RESIDUAL e (totalMassOut e) (totalIn e) n s' =
          Inr s')) \<and>
    (n_test e = n_phi e \<and> wf_jacobian_targets e s \<longrightarrow>
       (\<exists>s'. fullUpwind CALCULATE_JACOBIAN e s = Inr s'))"
proof -
  define s' where "s' = s\<lparr>local_re := upwindResidual e,
            upwind_node := upwindClassification e,
            re_blocks := map (\<lambda>re. map2 (+) re (upwindResidual e)) (re_blocks s),
            save_in := (if has_save_in e
                        then map (\<lambda>sol. map2 (+) sol (upwindResidual e)) (save_in s)
                        else save_in s)\<rparr>"
  have outflow: "\<forall>n<n_test e. rawFlux e n \<ge> 0" and zero: "totalIn e = 0"
    using assms(4) totalIn_eq_0_iff [of e] by blast+
  have run: "fullUpwind CALCULATE_RESIDUAL e s = Inr s'"
    unfolding s'_def by (rule fullUpwind_residual [OF assms(1-3)])
  have up: "\<forall>n<n_test e. upwind_node s' ! n"
    using outflow by (simp add: s'_def upwindClassification_def)
  have re: "\<forall>n<n_test e. local_re s' ! n = rawFlux e n * u_nodal e ! n"
    using outflow by (simp add: s'_def upwindResidual_def)
  have "length (upwind_node s') = n_test e"
    by (simp add: s'_def upwindClassification_def)
  with up have skip: "\<forall>n<n_test e.
      redistribute_node CALCULATE_RESIDUAL e (totalMassOut e) (totalIn e) n s' = Inr s'"
    by (simp add: redistribute_node_def)
  have "\<exists>t. fullUpwind CALCULATE_JACOBIAN e s = Inr t"
    if "n_test e = n_phi e" "wf_jacobian_targets e s"
    using fullUpwind_jacobian [OF assms(1) that(1) assms(2) that(2)] by blast
  with zero outflow run up re skip show ?thesis
    by blast
qed

theorem full_upwind_all_outflow_witness:
  "wf_element all_outflow \<and> n_test all_outflow \<le> length (u_nodal all_outflow) \<and>
   wf_residual_targets all_outflow assembled \<and>
   rawFlux all_outflow 0 = 3 / 2 \<and> rawFlux all_outflow 1 = 3 \<and>
   n_test all_outflow = n_phi all_outflow \<and> wf_jacobian_targets all_outflow assembled \<and>
   totalIn all_outflow = 0 \<and>
   (\<exists>s'. fullUpwind CALCULATE_RESIDUAL all_outflow assembled = Inr s' \<and>
      (\<forall>n<n_test all_outflow. upwind_node s' ! n) \<and>
      (\<forall>n<n_test all_outflow. local_re s' ! n = rawFlux all_outflow n * u_nodal all_outflow ! n) \<and>
      (\<forall>n<n_test all_outflow.
         redistribute_node CALCULATE_RESIDUAL all_outflow (totalMassOut all_outflow)
           (totalIn all_outflow) n s' = Inr s')) \<and>
   (\<exists>s'. fullUpwind CALCULATE_JACOBIAN all_outflow assembled = Inr s') \<and>
   fullUpwind CALCULATE_RESIDUAL all_outflow assembled =
     Inr (assembled\<lparr>local_re := [600, 900], upwind_node := [True, True],
            re_blocks := [[610, 920]]\<rparr>)"
proof -
  have wf: "wf_element all_outflow" "n_test all_outflow \<le> length (u_nodal all_outflow)"
    "wf_residual_targets all_outflow assembled"
    by code_simp+
  have flux: "rawFlux all_outflow 0 = 3 / 2" "rawFlux all_outflow 1 = 3"
    by code_simp+
  have "n < n_test all_outflow \<Longrightarrow> n = 0 \<or> n = 1" for n
    by (auto simp: all_outflow_def two_nodes_def)
  with flux have outflow: "\<forall>n<n_test all_outflow. rawFlux all_outflow n \<ge> 0"
    by fastforce
  have jac: "n_test all_outflow = n_phi all_outflow" "wf_jacobian_targets all_outflow assembled"
    by code_simp+
  have "fullUpwind CALCULATE_RESIDUAL all_outflow assembled =
     Inr (assembled\<lparr>local_re := [600, 900], upwind_node := [True, True],
            re_blocks := [[610, 920]]\<rparr>)"
    by code_simp
  then show ?thesis
    using wf flux jac full_upwind_all_outflow [OF wf disjI2 [OF outflow], of ] by blast
qed

text \<open>
  Claim C3. In the full-upwind mode, in either pass, node \<open>i\<close> is classified as an outflow
  (upwind) node if and only if its raw nodal outflux, the sum over the quadrature points of
  \<open>JxW * coord * negSpeedQp\<close>, is greater than or equal to zero; a raw outflux of exactly
  zero is classified as outflow. This holds of every run that returns, and the run returns
  when the containers have the sizes the framework gives them.
\<close>

theorem full_upwind_classifies_by_sign:
  assumes "wf_element e"
  shows "(\<forall>i<n_test e. \<forall>qp<n_points e. negSpeedQp e i qp = Inr (negSpeed e i qp)) \<and>
    (fullUpwind res_or_jac e s = Inr s' \<longrightarrow>
       length (upwind_node s') = n_test e \<and>
       (\<forall>i<n_test e. upwind_node s' ! i \<longleftrightarrow>
          (\<Sum>qp\<leftarrow>[0..<n_points e]. JxW e ! qp * coord e ! qp * negSpeed e i qp) \<ge> 0) \<and>
       (\<forall>i<n_test e.
          (\<Sum>qp\<leftarrow>[0..<n_points e]. JxW e ! qp * coord e ! qp * negSpeed e i qp) = 0 \<longrightarrow>
          upwind_node s' ! i)) \<and>
    (n_test e \<le> length (u_nodal e) \<and> wf_residual_targets e s \<longrightarrow>
       (\<exists>t. fullUpwind CALCULATE_RESIDUAL e s = Inr t)) \<and>
    (n_test e \<le> length (u_nodal e) \<and> n_test e = n_phi e \<and> wf_jacobian_targets e s \<longrightarrow>
       (\<exists>t. fullUpwind CALCULATE_JACOBIAN e s = Inr t))"
proof -
  have speed: "\<forall>i<n_test e. \<forall>qp<n_points e. negSpeedQp e i qp = Inr (negSpeed e i qp)"
    using assms by (simp add: negSpeedQp_wf)
  have classes: "length (upwind_node s') = n_test e \<and>
      (\<forall>i<n_test e. upwind_node s' ! i \<longleftrightarrow>
         (\<Sum>qp\<leftarrow>[0..<n_points e]. JxW e ! qp * coord e ! qp * negSpeed e i qp) \<ge> 0) \<and>
      (\<forall>i<n_test e.
         (\<Sum>qp\<leftarrow>[0..<n_points e]. JxW e ! qp * coord e ! qp * negSpeed e i qp) = 0 \<longrightarrow>
         upwind_node s' ! i)"
    if "fullUpwind res_or_jac e s = Inr s'"
    using fullUpwind_classification [OF assms that]
    by (simp add: upwindClassification_def rawFlux_def)
  have res: "\<exists>t. fullUpwind CALCULATE_RESIDUAL e s = Inr t"
    if "n_test e \<le> length (u_nodal e)" "wf_residual_targets e s"
    using fullUpwind_residual [OF assms that] by blast
  have jac: "\<exists>t. fullUpwind CALCULATE_JACOBIAN e s = Inr t"
    if "n_test e \<le> length (u_nodal e)" "n_test e = n_phi e" "wf_jacobian_targets e s"
    using fullUpwind_jacobian [OF assms that(2,1,3)] by blast
  from speed classes res jac show ?thesis
    by blast
qed

theorem full_upwind_classifies_by_sign_witness:
  "wf_element two_nodes \<and> wf_element at_rest \<and>
   n_test two_nodes \<le> length (u_nodal two_nodes) \<and> n_test two_nodes = n_phi two_nodes \<and>
   wf_residual_targets two_nodes assembled \<and> wf_jacobian_targets two_nodes assembled \<and>
   rawFlux two_nodes 0 = 3 / 2 \<and> rawFlux two_nodes 1 = - 3 / 2 \<and>
   rawFlux at_rest 0 = 0 \<and> rawFlux at_rest 1 = 0 \<and>
   negSpeedQp two_nodes 1 0 = Inr (- 3) \<and>
   (\<exists>t. fullUpwind CALCULATE_RESIDUAL two_nodes assembled = Inr t \<and>
        upwind_node t = [True, False]) \<and>
   (\<exists>t. fullUpwind CALCULATE_JACOBIAN two_nodes assembled = Inr t \<and>
        upwind_node t = [True, False]) \<and>
   (\<exists>t. fullUpwind CALCULATE_RESIDUAL at_rest assembled = Inr t \<and>
        upwind_node t = [True, True])"
proof -
  have wf: "wf_element two_nodes" "wf_element at_rest"
    and sizes: "n_test two_nodes \<le> length (u_nodal two_nodes)"
      "n_test two_nodes = n_phi two_nodes"
      "wf_residual_targets two_nodes assembled" "wf_jacobian_targets two_nodes assembled"
      "wf_residual_targets at_rest assembled" "n_test at_rest \<le> length (u_nodal at_rest)"
    by code_simp+
  have flux: "rawFlux two_nodes 0 = 3 / 2" "rawFlux two_nodes 1 = - 3 / 2"
    "rawFlux at_rest 0 = 0" "rawFlux at_rest 1 = 0" "negSpeedQp two_nodes 1 0 = Inr (- 3)"
    by code_simp+
  have classes: "upwindClassification two_nodes = [True, False]"
    "upwindClassification at_rest = [True, True]"
    by code_simp+
  from full_upwind_classifies_by_sign [OF wf(1), of CALCULATE_RESIDUAL assembled] sizes
  obtain t1 where t1: "fullUpwind CALCULATE_RESIDUAL two_nodes assembled = Inr t1"
    by blast
  from full_upwind_classifies_by_sign [OF wf(1), of CALCULATE_JACOBIAN assembled] sizes
  obtain t2 where t2: "fullUpwind CALCULATE_JACOBIAN two_nodes assembled = Inr t2"
    by blast
  from full_upwind_classifies_by_sign [OF wf(2), of CALCULATE_RESIDUAL assembled] sizes
  obtain t3 where t3: "fullUpwind CALCULATE_RESIDUAL at_rest assembled = Inr t3"
    by blast
  have "upwind_node t1 = [True, False]" "upwind_node t2 = [True, False]"
    "upwind_node t3 = [True, True]"
    using fullUpwind_classification [OF wf(1) t1] fullUpwind_classification [OF wf(1) t2]
      fullUpwind_classification [OF wf(2) t3] classes by simp_all
  with t1 t2 t3 wf sizes flux show ?thesis
    by blast
qed

text \<open>
  Claim C8. In the Jacobian pass, the diagonal entry \<open>local_ke(n, n)\<close> of an outflow node
  \<open>n\<close> receives the contribution \<open>rawFlux[n]\<close> if and only if the count of test functions
  equals the count of trial functions. With equal counts the pass returns, and the entry and
  \<open>dtotal_mass_out[n]\<close> are \<open>rawFlux[n]\<close>. With different counts the contribution is
  skipped: of every run that returns, \<open>dtotal_mass_out\<close> is still zero and the redistribution
  has added zero to every row, so the local Jacobian is the zero matrix.
\<close>

theorem full_upwind_jacobian_diagonal:
  "(wf_element e \<and> n_test e = n_phi e \<and> n_test e \<le> length (u_nodal e) \<and>
      wf_jacobian_targets e s \<longrightarrow>
      (\<exists>t. fullUpwind CALCULATE_JACOBIAN e s = Inr t \<and>
         (\<forall>n<n_test e. rawFlux e n \<ge> 0 \<longrightarrow>
            local_ke t ! n ! n = rawFlux e n \<and> dtotal_mass_out t ! n = rawFlux e n))) \<and>
   (n_test e \<noteq> n_phi e \<and> fullUpwind CALCULATE_JACOBIAN e s = Inr s' \<longrightarrow>
      dtotal_mass_out s' = replicate (n_test e) 0 \<and>
      local_ke s' = replicate (n_test e) (replicate (n_phi e) 0))"
proof -
  have equal: "\<exists>t. fullUpwind CALCULATE_JACOBIAN e s = Inr t \<and>
      (\<forall>n<n_test e. rawFlux e n \<ge> 0 \<longrightarrow>
         local_ke t ! n ! n = rawFlux e n \<and> dtotal_mass_out t ! n = rawFlux e n)"
    if "wf_element e" "n_test e = n_phi e" "n_test e \<le> length (u_nodal e)"
      "wf_jacobian_targets e s"
  proof -
    define t where "t = s\<lparr>local_re := upwindResidual e,
            local_ke := upwindJacobian e,
            upwind_node := upwindClassification e,
            dtotal_mass_out := dMassOut e,
            ke_blocks := map (\<lambda>ke. map2 (map2 (+)) ke (upwindJacobian e)) (ke_blocks s),
            diag_save_in :=
              (if has_diag_save_in e
               then map (\<lambda>sol. map2 (+) sol (map (\<lambda>i. upwindJacobian e ! i ! i) [0..<n_test e]))
                      (diag_save_in s)
               else diag_save_in s)\<rparr>"
    have "fullUpwind CALCULATE_JACOBIAN e s = Inr t"
      unfolding t_def by (rule fullUpwind_jacobian [OF that])
    moreover have "\<forall>n<n_test e. rawFlux e n \<ge> 0 \<longrightarrow>
        local_ke t ! n ! n = rawFlux e n \<and> dtotal_mass_out t ! n = rawFlux e n"
      using that(2) by (simp add: t_def upwindJacobian_def dMassOut_def)
    ultimately show ?thesis
      by blast
  qed
  have differ: "dtotal_mass_out s' = replicate (n_test e) 0 \<and>
      local_ke s' = replicate (n_test e) (replicate (n_phi e) 0)"
    if "n_test e \<noteq> n_phi e" "fullUpwind CALCULATE_JACOBIAN e s = Inr s'"
    using fullUpwind_jacobian_counts_differ [OF that(2,1)] by simp
  from equal differ show ?thesis
    by blast
qed

theorem full_upwind_jacobian_diagonal_witness:
  "wf_element two_nodes \<and> n_test two_nodes = n_phi two_nodes \<and>
   n_test two_nodes \<le> length (u_nodal two_nodes) \<and> wf_jacobian_targets two_nodes assembled \<and>
   rawFlux two_nodes 0 = 3 / 2 \<and>
   fullUpwind CALCULATE_JACOBIAN two_nodes assembled =
     Inr (assembled\<lparr>local_re := [600, - 600], local_ke := [[3 / 2, 0], [- (3 / 2), 0]],
            upwind_node := [True, False], dtotal_mass_out := [3 / 2, 0],
            ke_blocks := [[[5 / 2, 2], [3 / 2, 4]]]\<rparr>) \<and>
   (\<exists>t. fullUpwind CALCULATE_JACOBIAN two_nodes assembled = Inr t \<and>
      (\<forall>n<n_test two_nodes. rawFlux two_nodes n \<ge> 0 \<longrightarrow>
         local_ke t ! n ! n = rawFlux two_nodes n \<and>
         dtotal_mass_out t ! n = rawFlux two_nodes n)) \<and>
   n_test one_trial \<noteq> n_phi one_trial \<and>
   fullUpwind CALCULATE_JACOBIAN one_trial untagged =
     Inr (untagged\<lparr>local_re := [600, - 600], local_ke := [[0], [0]],
            upwind_node := [True, False], dtotal_mass_out := [0, 0]\<rparr>) \<and>
   dtotal_mass_out (untagged\<lparr>local_re := [600, - 600], local_ke := [[0], [0]],
            upwind_node := [True, False], dtotal_mass_out := [0, 0]\<rparr>) =
     replicate (n_test one_trial) 0 \<and>
   local_ke (untagged\<lparr>local_re := [600, - 600], local_ke := [[0], [0]],
            upwind_node := [True, False], dtotal_mass_out := [0, 0]\<rparr>) =
     replicate (n_test one_trial) (replicate (n_phi one_trial) 0)"
proof -
  have equal: "wf_element two_nodes \<and> n_test two_nodes = n_phi two_nodes \<and>
      n_test two_nodes \<le> length (u_nodal two_nodes) \<and> wf_jacobian_targets two_nodes assembled"
    by code_simp
  have flux: "rawFlux two_nodes 0 = 3 / 2"
    by code_simp
  have run: "fullUpwind CALCULATE_JACOBIAN two_nodes assembled =
     Inr (assembled\<lparr>local_re := [600, - 600], local_ke := [[3 / 2, 0], [- (3 / 2), 0]],
            upwind_node := [True, False], dtotal_mass_out := [3 / 2, 0],
            ke_blocks := [[[5 / 2, 2], [3 / 2, 4]]]\<rparr>)"
    by code_simp
  have differ: "n_test one_trial \<noteq> n_phi one_trial \<and>
      fullUpwind CALCULATE_JACOBIAN one_trial untagged =
        Inr (untagged\<lparr>local_re := [600, - 600], local_ke := [[0], [0]],
               upwind_node := [True, False], dtotal_mass_out := [0, 0]\<rparr>)"
    by code_simp
  show ?thesis
    using equal flux run differ
      full_upwind_jacobian_diagonal [of two_nodes assembled]
      full_upwind_jacobian_diagonal [of one_trial untagged
        "untagged\<lparr>local_re := [600, - 600], local_ke := [[0], [0]],
               upwind_node := [True, False], dtotal_mass_out := [0, 0]\<rparr>"]
    by blast
qed

text \<open>
  With different counts a run need not return: with three trial functions and an inflow
  node, the redistribution reads \<open>_dtotal_mass_out[2]\<close>, which the vector of two entries
  does not have.
\<close>

lemma full_upwind_jacobian_out_of_range:
  "fullUpwind CALCULATE_JACOBIAN (two_nodes\<lparr>n_phi := 3\<rparr>) untagged = Inl OutOfRange"
  by code_simp

text \<open>
  Claim C10. A call \<open>fullUpwind(CALCULATE_RESIDUAL)\<close> neither reads nor writes the local
  Jacobian matrix and adds nothing to the tagged matrix blocks: of a run that returns, the
  local Jacobian and the tagged matrix blocks are those of the state before, and a run from
  another local Jacobian goes the same way and carries that matrix through. A call
  \<open>fullUpwind(CALCULATE_JACOBIAN)\<close> adds nothing to the tagged residual blocks: of a run
  that returns, they are those of the state before.
\<close>

theorem full_upwind_passes_are_separate:
  "(fullUpwind CALCULATE_RESIDUAL e s = Inr s' \<longrightarrow>
      local_ke s' = local_ke s \<and> ke_blocks s' = ke_blocks s \<and>
      dtotal_mass_out s' = dtotal_mass_out s \<and> diag_save_in s' = diag_save_in s) \<and>
   fullUpwind CALCULATE_RESIDUAL e (s\<lparr>local_ke := K\<rparr>) =
     map_sum id (\<lambda>t. t\<lparr>local_ke := K\<rparr>) (fullUpwind CALCULATE_RESIDUAL e s) \<and>
   (fullUpwind CALCULATE_JACOBIAN e s = Inr s'' \<longrightarrow>
      re_blocks s'' = re_blocks s \<and> save_in s'' = save_in s)"
proof -
  have res: "local_ke s' = local_ke s \<and> ke_blocks s' = ke_blocks s \<and>
      dtotal_mass_out s' = dtotal_mass_out s \<and> diag_save_in s' = diag_save_in s"
    if "fullUpwind CALCULATE_RESIDUAL e s = Inr s'"
  proof -
    from fullUpwind_residual_writes [OF that] obtain re up blocks saved where
      "s' = s\<lparr>local_re := re, upwind_node := up, re_blocks := blocks, save_in := saved\<rparr>"
      by blast
    then show ?thesis by simp
  qed
  have jac: "re_blocks s'' = re_blocks s \<and> save_in s'' = save_in s"
    if "fullUpwind CALCULATE_JACOBIAN e s = Inr s''"
  proof -
    from fullUpwind_jacobian_writes [OF that] obtain re ke up dt blocks saved where
      "s'' = s\<lparr>local_re := re, local_ke := ke, upwind_node := up, dtotal_mass_out := dt,
                ke_blocks := blocks, diag_save_in := saved\<rparr>"
      by blast
    then show ?thesis by simp
  qed
  from res jac fullUpwind_residual_ignores_local_ke [where e = e and s = s and K = K] show ?thesis
    by blast
qed

theorem full_upwind_passes_are_separate_witness:
  "fullUpwind CALCULATE_RESIDUAL two_nodes assembled =
     Inr (assembled\<lparr>local_re := [600, - 600], upwind_node := [True, False],
            re_blocks := [[610, - 580]]\<rparr>) \<and>
   ke_blocks (assembled\<lparr>local_re := [600, - 600], upwind_node := [True, False],
            re_blocks := [[610, - 580]]\<rparr>) = ke_blocks assembled \<and>
   local_ke (assembled\<lparr>local_re := [600, - 600], upwind_node := [True, False],
            re_blocks := [[610, - 580]]\<rparr>) = local_ke assembled \<and>
   fullUpwind CALCULATE_RESIDUAL two_nodes (assembled\<lparr>local_ke := [[7, 8], [9, 10]]\<rparr>) =
     Inr (assembled\<lparr>local_re := [600, - 600], local_ke := [[7, 8], [9, 10]],
            upwind_node := [True, False], re_blocks := [[610, - 580]]\<rparr>) \<and>
   fullUpwind CALCULATE_JACOBIAN two_nodes assembled =
     Inr (assembled\<lparr>local_re := [600, - 600], local_ke := [[3 / 2, 0], [- (3 / 2), 0]],
            upwind_node := [True, False], dtotal_mass_out := [3 / 2, 0],
            ke_blocks := [[[5 / 2, 2], [3 / 2, 4]]]\<rparr>) \<and>
   re_blocks (assembled\<lparr>local_re := [600, - 600], local_ke := [[3 / 2, 0], [- (3 / 2), 0]],
            upwind_node := [True, False], dtotal_mass_out := [3 / 2, 0],
            ke_blocks := [[[5 / 2, 2], [3 / 2, 4]]]\<rparr>) = re_blocks assembled"
proof -
  have res: "fullUpwind CALCULATE_RESIDUAL two_nodes assembled =
     Inr (assembled\<lparr>local_re := [600, - 600], upwind_node := [True, False],
            re_blocks := [[610, - 580]]\<rparr>)"
    by code_simp
  have jac: "fullUpwind CALCULATE_JACOBIAN two_nodes assembled =
     Inr (assembled\<lparr>local_re := [600, - 600], local_ke := [[3 / 2, 0], [- (3 / 2), 0]],
            upwind_node := [True, False], dtotal_mass_out := [3 / 2, 0],
            ke_blocks := [[[5 / 2, 2], [3 / 2, 4]]]\<rparr>)"
    by code_simp
  have other: "fullUpwind CALCULATE_RESIDUAL two_nodes (assembled\<lparr>local_ke := [[7, 8], [9, 10]]\<rparr>) =
     Inr (assembled\<lparr>local_re := [600, - 600], local_ke := [[7, 8], [9, 10]],
            upwind_node := [True, False], re_blocks := [[610, - 580]]\<rparr>)"
    using res
      full_upwind_passes_are_separate [of two_nodes assembled _ "[[7, 8], [9, 10]]"]
    by simp
  show ?thesis
    using res jac other
      full_upwind_passes_are_separate [of two_nodes assembled
        "assembled\<lparr>local_re := [600, - 600], upwind_node := [True, False],
            re_blocks := [[610, - 580]]\<rparr>" "[[7, 8], [9, 10]]"
        "assembled\<lparr>local_re := [600, - 600], local_ke := [[3 / 2, 0], [- (3 / 2), 0]],
            upwind_node := [True, False], dtotal_mass_out := [3 / 2, 0],
            ke_blocks := [[[5 / 2, 2], [3 / 2, 4]]]\<rparr>"]
    by blast
qed

section \<open>The save-in blocks on the concrete element\<close>

text \<open>
  With a save-in variable, the residual pass adds the local residual to its entries; with a
  diagonal save-in variable, the Jacobian pass adds the diagonal of the local Jacobian.
\<close>

lemma full_upwind_save_in_example:
  "fullUpwind CALCULATE_RESIDUAL (two_nodes\<lparr>has_save_in := True\<rparr>)
     (assembled\<lparr>save_in := [[1, 2]]\<rparr>) =
   Inr (assembled\<lparr>local_re := [600, - 600], upwind_node := [True, False],
          re_blocks := [[610, - 580]], save_in := [[601, - 598]]\<rparr>)"
  by code_simp

lemma full_upwind_diag_save_in_example:
  "fullUpwind CALCULATE_JACOBIAN (two_nodes\<lparr>has_diag_save_in := True\<rparr>)
     (assembled\<lparr>diag_save_in := [[1, 2]]\<rparr>) =
   Inr (assembled\<lparr>local_re := [600, - 600], local_ke := [[3 / 2, 0], [- (3 / 2), 0]],
          upwind_node := [True, False], dtotal_mass_out := [3 / 2, 0],
          ke_blocks := [[[5 / 2, 2], [3 / 2, 4]]], diag_save_in := [[5 / 2, 2]]\<rparr>)"
  by code_simp

end
